theory Spec2Isabelle
  imports Complex_Main "HOL-Library.Word" "HOL-Library.Sublist"
begin

section \<open>Data model of the minmer sketch index (winSketch.hpp)\<close>

text \<open>
  The scalar types come from \<^verbatim>\<open>base_types.hpp\<close>, which is not among the sources; they are
  taken as the data model describes them: a hash is an unsigned 64-bit value, offsets and
  sequence numbers are signed integers. Only equality of hashes and positions is used by the
  index construction.
\<close>

type_synonym hash_t = "64 word"
type_synonym offset_t = int
type_synonym seqno_t = int

datatype strnd = FWD | REV

datatype side = OPEN | CLOSE

record MinmerInfo =
  hash :: hash_t
  wpos :: offset_t
  wpos_end :: offset_t
  seqId :: seqno_t
  strand :: strnd

text \<open>
  \<^verbatim>\<open>IntervalPoint {mi.wpos, mi.hash, mi.seqId, side::OPEN}\<close>: position, hash, sequence, side.
\<close>

record IntervalPoint =
  pos :: offset_t
  ip_hash :: hash_t
  ip_seqId :: seqno_t
  ip_side :: side

record ContigInfo =
  name :: string
  len :: offset_t

text \<open>
  The parameters of the sketch (\<^verbatim>\<open>map_parameters.hpp\<close> is not among the sources). The index
  format stores \<open>segLength\<close>, \<open>sketchSize\<close> and \<open>kmerSize\<close> as unsigned 64-bit fields;
  \<open>kmer_pct_threshold\<close> is a floating-point percentage, held as the rational number that
  the floating-point value denotes.
\<close>

record Parameters =
  segLength :: nat
  sketchSize :: nat
  kmerSize :: nat
  kmer_pct_threshold :: rat
  refSequences :: "string list"
  indexFilename :: string
  overwrite_index :: bool
  create_index_only :: bool

text \<open>
  \<^verbatim>\<open>ankerl::unordered_dense\<close> maps and sets keep their entries in a dense vector in
  insertion order (nothing is ever erased from them here), so they are association lists and
  lists: \<open>map_set\<close> overwrites the value of a present key in place and appends an absent one.
  \<open>map_at\<close> is the value that \<^verbatim>\<open>m[k]\<close> reads: the stored one, or a fresh empty vector.
\<close>

fun map_set :: "'k \<Rightarrow> 'v \<Rightarrow> ('k \<times> 'v) list \<Rightarrow> ('k \<times> 'v) list" where
  "map_set k v [] = [(k, v)]"
| "map_set k v ((k', v') # m) = (if k' = k then (k', v) # m else (k', v') # map_set k v m)"

definition map_at :: "('k \<times> 'v list) list \<Rightarrow> 'k \<Rightarrow> 'v list" where
  "map_at m k = (case map_of m k of None \<Rightarrow> [] | Some l \<Rightarrow> l)"

definition counter_incr :: "'k \<Rightarrow> ('k \<times> nat) list \<Rightarrow> ('k \<times> nat) list" where
  "counter_incr k m = map_set k ((case map_of m k of None \<Rightarrow> 0 | Some c \<Rightarrow> c) + 1) m"

definition set_insert :: "'k \<Rightarrow> 'k list \<Rightarrow> 'k list" where
  "set_insert k s = (if k \<in> set s then s else s @ [k])"

text \<open>
  \<^verbatim>\<open>std::map<uint64_t, uint64_t> minmerFreqHistogram\<close> is ordered by key: an association
  list kept in ascending key order. \<open>hist_incr k\<close> is \<^verbatim>\<open>minmerFreqHistogram[k]++\<close>.
\<close>

fun hist_incr :: "nat \<Rightarrow> (nat \<times> nat) list \<Rightarrow> (nat \<times> nat) list" where
  "hist_incr k [] = [(k, 1)]"
| "hist_incr k ((k', v) # h) =
     (if k < k' then (k, 1) # (k', v) # h
      else if k = k' then (k', v + 1) # h
      else (k', v) # hist_incr k h)"

definition UINT64_MAX :: nat where
  "UINT64_MAX = 2 ^ 64 - 1"

record Sketch =
  param :: Parameters
  freqThreshold :: nat
  frequentSeeds :: "hash_t list"
  isInitialized :: bool
  hashFreq :: "(hash_t \<times> nat) list"
  metadata :: "ContigInfo list"
  sequencesByFileInfo :: "int list"
  minmerPosLookupIndex :: "(hash_t \<times> IntervalPoint list) list"
  minmerIndex :: "MinmerInfo list"
  minmerFreqHistogram :: "(nat \<times> nat) list"
  idManager :: "string list"

text \<open>
  The state of a \<^verbatim>\<open>Sketch\<close> when its constructor has run the member initialisers and is
  about to call \<^verbatim>\<open>initialize\<close>: the threshold is \<^verbatim>\<open>numeric_limits<uint64_t>::max()\<close>,
  every container is empty.
\<close>

definition new_Sketch :: "Parameters \<Rightarrow> ContigInfo list \<Rightarrow> int list \<Rightarrow> string list \<Rightarrow> Sketch" where
  "new_Sketch p md sbf idm =
     \<lparr> param = p, freqThreshold = UINT64_MAX, frequentSeeds = [], isInitialized = False,
       hashFreq = [], metadata = md, sequencesByFileInfo = sbf, minmerPosLookupIndex = [],
       minmerIndex = [], minmerFreqHistogram = [], idManager = idm \<rparr>"

subsection \<open>Accumulating the thread outputs\<close>

text \<open>
  One iteration of the loop of \<^verbatim>\<open>buildHandleThreadOutput\<close>: count the hash, then either
  append an OPEN/CLOSE pair to the interval points of the hash or move the last point.
\<close>

definition handleMinmer :: "MinmerInfo \<Rightarrow> Sketch \<Rightarrow> Sketch" where
  "handleMinmer mi sk =
     (let sk1 = sk\<lparr>hashFreq := counter_incr (hash mi) (hashFreq sk)\<rparr>;
          l = map_at (minmerPosLookupIndex sk1) (hash mi)
      in if length l = 0 \<or> ip_hash (last l) \<noteq> hash mi \<or> pos (last l) \<noteq> wpos mi
         then sk1\<lparr>minmerPosLookupIndex :=
                map_set (hash mi)
                  (l @ [\<lparr>pos = wpos mi, ip_hash = hash mi, ip_seqId = seqId mi, ip_side = OPEN\<rparr>,
                        \<lparr>pos = wpos_end mi, ip_hash = hash mi, ip_seqId = seqId mi, ip_side = CLOSE\<rparr>])
                  (minmerPosLookupIndex sk1)\<rparr>
         else sk1\<lparr>minmerPosLookupIndex :=
                map_set (hash mi) (butlast l @ [(last l)\<lparr>pos := wpos_end mi\<rparr>])
                  (minmerPosLookupIndex sk1)\<rparr>)"

definition buildHandleThreadOutput :: "MinmerInfo list \<Rightarrow> Sketch \<Rightarrow> Sketch" where
  "buildHandleThreadOutput contigMinmerIndex sk =
     (let sk1 = fold handleMinmer contigMinmerIndex sk
      in sk1\<lparr>minmerIndex := minmerIndex sk1 @ contigMinmerIndex\<rparr>)"

subsection \<open>Frequency histogram, threshold and pruning\<close>

text \<open>
  \<^verbatim>\<open>int64_t minmerToIgnore = totalUniqueMinmers * param.kmer_pct_threshold / 100\<close>: the
  product and the quotient are floating-point operations, each of them rounded, and the
  result is converted to a 64-bit integer. Floating-point arithmetic is not modelled: the
  function that this expression computes, from the number of hashes and the percentage to
  the bound, is a parameter \<open>fp\<close> of the model, and nothing is assumed of it.
\<close>

type_synonym percent_arith = "int \<Rightarrow> rat \<Rightarrow> int"

definition minmerToIgnore :: "percent_arith \<Rightarrow> Parameters \<Rightarrow> int \<Rightarrow> int" where
  "minmerToIgnore fp p totalUniqueMinmers = fp totalUniqueMinmers (kmer_pct_threshold p)"

text \<open>
  The loop over the histogram from its highest key downwards, on the entries still to visit,
  the running sum \<open>acc\<close> and the current value of \<open>freqThreshold\<close>.
\<close>

fun threshold_loop :: "(nat \<times> nat) list \<Rightarrow> int \<Rightarrow> int \<Rightarrow> nat \<Rightarrow> nat" where
  "threshold_loop [] acc toIgnore thr = thr"
| "threshold_loop ((first, second) # it) acc toIgnore thr =
     (let acc' = acc + int second
      in if acc' < toIgnore then threshold_loop it acc' toIgnore first
         else if acc' = toIgnore then first
         else thr)"

definition computeFreqHist :: "percent_arith \<Rightarrow> Sketch \<Rightarrow> Sketch" where
  "computeFreqHist fp sk =
     (if minmerPosLookupIndex sk \<noteq> [] then
        let h = fold (\<lambda>e. hist_incr (length (snd e))) (minmerPosLookupIndex sk)
                  (minmerFreqHistogram sk);
            totalUniqueMinmers = int (length (minmerPosLookupIndex sk));
            toIgnore = minmerToIgnore fp (param sk) totalUniqueMinmers
        in sk\<lparr>minmerFreqHistogram := h,
               freqThreshold := threshold_loop (rev h) 0 toIgnore (freqThreshold sk)\<rparr>
      else sk)"

definition computeFreqSeedSet :: "Sketch \<Rightarrow> Sketch" where
  "computeFreqSeedSet sk =
     sk\<lparr>frequentSeeds :=
          fold (\<lambda>e s. if length (snd e) \<ge> freqThreshold sk then set_insert (fst e) s else s)
            (minmerPosLookupIndex sk) (frequentSeeds sk)\<rparr>"

definition isFreqSeed :: "Sketch \<Rightarrow> hash_t \<Rightarrow> bool" where
  "isFreqSeed sk h = (h \<in> set (frequentSeeds sk))"

definition dropFreqSeedSet :: "Sketch \<Rightarrow> Sketch" where
  "dropFreqSeedSet sk =
     sk\<lparr>minmerIndex := filter (\<lambda>mi. \<not> isFreqSeed sk (hash mi)) (minmerIndex sk)\<rparr>"

subsection \<open>Outcomes of a call\<close>

text \<open>
  A call returns normally, or ends the process with \<^verbatim>\<open>exit(code)\<close> after writing a
  diagnostic to \<^verbatim>\<open>std::cerr\<close>. The diagnostic is the sequence of items that the failing
  branch sends to the stream with \<^verbatim>\<open><<\<close>. \<open>StreamFail\<close> stands for a read from a file that is
  missing or too short: the C++ stream then enters its fail state, which the source never
  tests; no property below speaks about that case.
\<close>

datatype item = Str string | Num int | Endl

datatype 'a outcome = Normal 'a | Exit int "item list" | StreamFail

definition obind :: "'a outcome \<Rightarrow> ('a \<Rightarrow> 'b outcome) \<Rightarrow> 'b outcome" where
  "obind m f = (case m of Normal x \<Rightarrow> f x | Exit c d \<Rightarrow> Exit c d | StreamFail \<Rightarrow> StreamFail)"

subsection \<open>The binary index file\<close>

text \<open>
  The file is written and read as raw objects on the same machine. It is modelled at the
  granularity of those objects: one cell per unsigned 64-bit scalar (a parameter, a count or
  a hash), per \<^verbatim>\<open>MinmerInfo\<close> and per \<^verbatim>\<open>IntervalPoint\<close>. A \<^verbatim>\<open>write\<close> of \<open>n\<close> objects
  appends \<open>n\<close> cells, a \<^verbatim>\<open>read\<close> of \<open>n\<close> objects consumes \<open>n\<close> cells.
\<close>

datatype cell = U64 nat | MinmerRec MinmerInfo | PointRec IntervalPoint

type_synonym filesystem = "string \<rightharpoonup> cell list"

definition writeSketchBinary :: "Sketch \<Rightarrow> cell list \<Rightarrow> cell list" where
  "writeSketchBinary sk outStream =
     outStream @ [U64 (length (minmerIndex sk))] @ map MinmerRec (minmerIndex sk)"

definition writePosListBinary :: "Sketch \<Rightarrow> cell list \<Rightarrow> cell list" where
  "writePosListBinary sk outStream =
     fold (\<lambda>(hash, ipVec) out. out @ [U64 (unat hash), U64 (length ipVec)] @ map PointRec ipVec)
       (minmerPosLookupIndex sk)
       (outStream @ [U64 (length (minmerPosLookupIndex sk))])"

definition writeFreqKmersBinary :: "Sketch \<Rightarrow> cell list \<Rightarrow> cell list" where
  "writeFreqKmersBinary sk outStream =
     fold (\<lambda>kmerHash out. out @ [U64 (unat kmerHash)]) (frequentSeeds sk)
       (outStream @ [U64 (length (frequentSeeds sk))])"

definition writeParameters :: "Sketch \<Rightarrow> cell list \<Rightarrow> cell list" where
  "writeParameters sk outStream =
     outStream @ [U64 (segLength (param sk)), U64 (sketchSize (param sk)), U64 (kmerSize (param sk))]"

definition writeIndex :: "Sketch \<Rightarrow> filesystem \<Rightarrow> filesystem" where
  "writeIndex sk fs =
     fs(indexFilename (param sk) \<mapsto>
          writeFreqKmersBinary sk (writePosListBinary sk (writeSketchBinary sk (writeParameters sk []))))"

fun read_u64 :: "cell list \<Rightarrow> (nat \<times> cell list) outcome" where
  "read_u64 (U64 v # inStream) = Normal (v, inStream)"
| "read_u64 _ = StreamFail"

fun read_minmers :: "nat \<Rightarrow> cell list \<Rightarrow> (MinmerInfo list \<times> cell list) outcome" where
  "read_minmers 0 inStream = Normal ([], inStream)"
| "read_minmers (Suc n) (MinmerRec mi # inStream) =
     obind (read_minmers n inStream) (\<lambda>(ms, rest). Normal (mi # ms, rest))"
| "read_minmers (Suc n) _ = StreamFail"

fun read_points :: "nat \<Rightarrow> cell list \<Rightarrow> (IntervalPoint list \<times> cell list) outcome" where
  "read_points 0 inStream = Normal ([], inStream)"
| "read_points (Suc n) (PointRec ip # inStream) =
     obind (read_points n inStream) (\<lambda>(ps, rest). Normal (ip # ps, rest))"
| "read_points (Suc n) _ = StreamFail"

definition readSketchBinary :: "Sketch \<times> cell list \<Rightarrow> (Sketch \<times> cell list) outcome" where
  "readSketchBinary = (\<lambda>(sk, inStream).
     obind (read_u64 inStream) (\<lambda>(size, in1).
     obind (read_minmers size in1) (\<lambda>(ms, in2).
     Normal (sk\<lparr>minmerIndex := ms\<rparr>, in2))))"

text \<open>The loop of \<^verbatim>\<open>readPosListBinary\<close>, on the number of keys still to read.\<close>

fun read_pos_entries ::
  "nat \<Rightarrow> (hash_t \<times> IntervalPoint list) list \<Rightarrow> cell list
     \<Rightarrow> ((hash_t \<times> IntervalPoint list) list \<times> cell list) outcome" where
  "read_pos_entries 0 m inStream = Normal (m, inStream)"
| "read_pos_entries (Suc n) m inStream =
     obind (read_u64 inStream) (\<lambda>(key, in1).
     obind (read_u64 in1) (\<lambda>(size, in2).
     obind (read_points size in2) (\<lambda>(ps, in3).
     read_pos_entries n (map_set (of_nat key) ps m) in3)))"

definition readPosListBinary :: "Sketch \<times> cell list \<Rightarrow> (Sketch \<times> cell list) outcome" where
  "readPosListBinary = (\<lambda>(sk, inStream).
     obind (read_u64 inStream) (\<lambda>(numKeys, in1).
     obind (read_pos_entries numKeys (minmerPosLookupIndex sk) in1) (\<lambda>(m, in2).
     Normal (sk\<lparr>minmerPosLookupIndex := m\<rparr>, in2))))"

fun read_freq_keys :: "nat \<Rightarrow> hash_t list \<Rightarrow> cell list \<Rightarrow> (hash_t list \<times> cell list) outcome" where
  "read_freq_keys 0 s inStream = Normal (s, inStream)"
| "read_freq_keys (Suc n) s inStream =
     obind (read_u64 inStream) (\<lambda>(key, in1). read_freq_keys n (set_insert (of_nat key) s) in1)"

definition readFreqKmersBinary :: "Sketch \<times> cell list \<Rightarrow> (Sketch \<times> cell list) outcome" where
  "readFreqKmersBinary = (\<lambda>(sk, inStream).
     obind (read_u64 inStream) (\<lambda>(numKeys, in1).
     obind (read_freq_keys numKeys (frequentSeeds sk) in1) (\<lambda>(s, in2).
     Normal (sk\<lparr>frequentSeeds := s\<rparr>, in2))))"

definition param_mismatch_diag :: "Parameters \<Rightarrow> nat \<Rightarrow> nat \<Rightarrow> nat \<Rightarrow> item list" where
  "param_mismatch_diag p index_segLength index_sketchSize index_kmerSize =
     [Str ''[mashmap::skch::Sketch::build] ERROR: Parameters of indexed sketch differ from CLI parameters'',
      Endl,
      Str ''[mashmap::skch::Sketch::build] ERROR: Index --> segLength='', Num (int index_segLength),
      Str '' sketchSize='', Num (int index_sketchSize),
      Str '' kmerSize='', Num (int index_kmerSize), Endl,
      Str ''[mashmap::skch::Sketch::build] ERROR: CLI   --> segLength='', Num (int (segLength p)),
      Str '' sketchSize='', Num (int (sketchSize p)),
      Str '' kmerSize='', Num (int (kmerSize p)), Endl]"

definition readParameters :: "Sketch \<times> cell list \<Rightarrow> (Sketch \<times> cell list) outcome" where
  "readParameters = (\<lambda>(sk, inStream).
     obind (read_u64 inStream) (\<lambda>(index_segLength, in1).
     obind (read_u64 in1) (\<lambda>(index_sketchSize, in2).
     obind (read_u64 in2) (\<lambda>(index_kmerSize, in3).
     if segLength (param sk) \<noteq> index_segLength
        \<or> sketchSize (param sk) \<noteq> index_sketchSize
        \<or> kmerSize (param sk) \<noteq> index_kmerSize
     then Exit 1 (param_mismatch_diag (param sk) index_segLength index_sketchSize index_kmerSize)
     else Normal (sk, in3)))))"

definition readIndex :: "Sketch \<Rightarrow> filesystem \<Rightarrow> Sketch outcome" where
  "readIndex sk fs =
     (case fs (indexFilename (param sk)) of
        None \<Rightarrow> StreamFail
      | Some inStream \<Rightarrow>
          obind (readParameters (sk, inStream)) (\<lambda>s1.
          obind (readSketchBinary s1) (\<lambda>s2.
          obind (readPosListBinary s2) (\<lambda>s3.
          obind (readFreqKmersBinary s3) (\<lambda>(sk4, rest). Normal sk4)))))"

subsection \<open>Building and initialising the sketch\<close>

text \<open>
  What the construction takes from code outside \<^verbatim>\<open>winSketch.hpp\<close>: the sequences that
  \<^verbatim>\<open>seqiter::for_each_seq_in_file\<close> passes to its callback for a file name and a list of
  target names, and the minmers that \<^verbatim>\<open>CommonFunc::addMinmers\<close> computes for a sequence,
  the parameters and a sequence number. With them comes the floating-point evaluation of the
  bound of \<^verbatim>\<open>computeFreqHist\<close>.
\<close>

record Env =
  for_each_seq_in_file :: "string \<Rightarrow> string list \<Rightarrow> (string \<times> string) list"
  addMinmers :: "string \<Rightarrow> Parameters \<Rightarrow> seqno_t \<Rightarrow> MinmerInfo list"
  percent_of_total :: percent_arith

text \<open>
  Modelled from the spec: \<^verbatim>\<open>SequenceIdManager\<close> (its header is not among the sources) maps
  names to dense sequence numbers assigned in order of first appearance.
\<close>

fun index_of :: "'a \<Rightarrow> 'a list \<Rightarrow> nat" where
  "index_of x [] = 0"
| "index_of x (y # ys) = (if x = y then 0 else Suc (index_of x ys))"

definition addSequence :: "string \<Rightarrow> string list \<Rightarrow> seqno_t \<times> string list" where
  "addSequence sequenceName idm =
     (if sequenceName \<in> set idm then (int (index_of sequenceName idm), idm)
      else (int (length idm), idm @ [sequenceName]))"

definition buildHelper :: "Env \<Rightarrow> Parameters \<Rightarrow> string \<Rightarrow> seqno_t \<Rightarrow> MinmerInfo list" where
  "buildHelper env p seq seqCounter = addMinmers env seq p seqCounter"

text \<open>
  The callback that \<^verbatim>\<open>build\<close> runs on every sequence of a file. The thread pool is taken
  to finish each job before the next sequence is read, so that the output of a sequence is
  handled when it is submitted; the properties of the accumulation below are proved for the
  thread outputs arriving in any order.
\<close>

definition build_callback :: "Env \<Rightarrow> string \<times> string \<Rightarrow> Sketch \<Rightarrow> Sketch" where
  "build_callback env = (\<lambda>(seq_name, seq) sk.
     if length seq \<ge> segLength (param sk) then
       let (seqId, idm) = addSequence seq_name (idManager sk);
           sk1 = sk\<lparr>idManager := idm\<rparr>;
           sk2 = buildHandleThreadOutput (buildHelper env (param sk1) seq seqId) sk1
       in sk2\<lparr>metadata := metadata sk2 @ [\<lparr>name = seq_name, len = int (length seq)\<rparr>]\<rparr>
     else sk)"

definition empty_sketch_diag :: "item list" where
  "empty_sketch_diag =
     [Str ''[mashmap::skch::Sketch::build] ERROR, reference sketch is empty. Reference sequences shorter than the kmer size are not indexed'',
      Endl]"

definition build :: "Env \<Rightarrow> bool \<Rightarrow> string list \<Rightarrow> Sketch \<Rightarrow> Sketch outcome" where
  "build env compute_seeds target_names sk =
     (let sk1 =
        (if compute_seeds then
           let sk' = fold (\<lambda>fileName. fold (build_callback env)
                              (for_each_seq_in_file env fileName target_names))
                       (refSequences (param sk)) sk
           in sk'\<lparr>sequencesByFileInfo := sequencesByFileInfo sk' @ [int (length (idManager sk'))]\<rparr>
         else sk)
      in if length (minmerIndex sk1) = 0 then Exit 1 empty_sketch_diag else Normal sk1)"

text \<open>
  \<^verbatim>\<open>initialize\<close> on the file system and the sketch. The file system is returned in every
  case, since the index may have been written before the process exits.
\<close>

definition initialize ::
  "Env \<Rightarrow> string list \<Rightarrow> filesystem \<Rightarrow> Sketch \<Rightarrow> filesystem \<times> Sketch outcome" where
  "initialize env targets fs sk =
     (if indexFilename (param sk) = [] \<or> fs (indexFilename (param sk)) = None
         \<or> overwrite_index (param sk)
      then
        (case build env True targets sk of
           Normal sk1 \<Rightarrow>
             let sk2 = computeFreqHist (percent_of_total env) sk1;
                 sk3 = computeFreqSeedSet sk2;
                 sk4 = dropFreqSeedSet sk3;
                 sk5 = sk4\<lparr>hashFreq := []\<rparr>;
                 fs1 = (if indexFilename (param sk5) \<noteq> [] then writeIndex sk5 fs else fs)
             in if create_index_only (param sk5)
                then (fs1, Exit 0 [Str ''[mashmap::skch::Sketch] Index created successfully. Exiting.'', Endl])
                else (fs1, Normal (sk5\<lparr>isInitialized := True\<rparr>))
         | Exit c d \<Rightarrow> (fs, Exit c d)
         | StreamFail \<Rightarrow> (fs, StreamFail))
      else
        (fs, obind (build env False [] sk) (\<lambda>sk1.
             obind (readIndex sk1 fs) (\<lambda>sk2.
             Normal (sk2\<lparr>isInitialized := True\<rparr>)))))"

text \<open>The public constructor: member initialisers, then \<^verbatim>\<open>initialize(targets)\<close>.\<close>

definition Sketch_constructor ::
  "Env \<Rightarrow> Parameters \<Rightarrow> ContigInfo list \<Rightarrow> int list \<Rightarrow> string list \<Rightarrow> string list
     \<Rightarrow> filesystem \<Rightarrow> filesystem \<times> Sketch outcome" where
  "Sketch_constructor env p md sbf idMgr targets fs =
     initialize env targets fs (new_Sketch p md sbf idMgr)"

subsection \<open>Predicates on interval points and an example index\<close>

text \<open>
  The properties of the interval points of one hash are proved through three facts that
  every step of the accumulation keeps: the sides alternate in pairs OPEN, CLOSE; a CLOSE
  point is never followed by an OPEN point at the same position; every point carries the
  hash it is stored under.
\<close>

fun alternating :: "IntervalPoint list \<Rightarrow> bool" where
  "alternating [] = True"
| "alternating [p] = False"
| "alternating (p # q # r) = (ip_side p = OPEN \<and> ip_side q = CLOSE \<and> alternating r)"

fun adjacent_merged :: "IntervalPoint list \<Rightarrow> bool" where
  "adjacent_merged (a # b # r) =
     ((ip_side a = CLOSE \<and> ip_side b = OPEN \<longrightarrow> pos a \<noteq> pos b) \<and> adjacent_merged (b # r))"
| "adjacent_merged _ = True"

definition points_ok :: "hash_t \<Rightarrow> IntervalPoint list \<Rightarrow> bool" where
  "points_ok h l = (alternating l \<and> adjacent_merged l \<and> (\<forall>p \<in> set l. ip_hash p = h))"

definition points_inv :: "(hash_t \<times> IntervalPoint list) list \<Rightarrow> bool" where
  "points_inv m = (\<forall>(h, l) \<in> set m. l \<noteq> [] \<and> points_ok h l)"

text \<open>
  An example: two thread outputs over three hashes. \<open>ex_first\<close> is the sketch after the
  first window of hash 5 has been handled. The first two windows of hash 5 touch
  (the first ends at 10 where the second starts) and are merged into one interval.
\<close>

definition ex_params :: Parameters where
  "ex_params = \<lparr> segLength = 500, sketchSize = 7, kmerSize = 19, kmer_pct_threshold = 70,
       refSequences = [''ref.fa''], indexFilename = ''ref.idx'', overwrite_index = False,
       create_index_only = False \<rparr>"

definition ex_mA :: MinmerInfo where
  "ex_mA = \<lparr>hash = 5, wpos = 0, wpos_end = 10, seqId = 0, strand = FWD\<rparr>"

definition ex_mB :: MinmerInfo where
  "ex_mB = \<lparr>hash = 5, wpos = 10, wpos_end = 20, seqId = 0, strand = FWD\<rparr>"

definition ex_mC :: MinmerInfo where
  "ex_mC = \<lparr>hash = 5, wpos = 30, wpos_end = 40, seqId = 0, strand = REV\<rparr>"

definition ex_mD :: MinmerInfo where
  "ex_mD = \<lparr>hash = 7, wpos = 3, wpos_end = 9, seqId = 0, strand = REV\<rparr>"

definition ex_mE :: MinmerInfo where
  "ex_mE = \<lparr>hash = 9, wpos = 12, wpos_end = 15, seqId = 1, strand = FWD\<rparr>"

definition ex_outputs :: "MinmerInfo list list" where
  "ex_outputs = [[ex_mA, ex_mB, ex_mD], [ex_mC, ex_mE]]"

definition ex_points5 :: "IntervalPoint list" where
  "ex_points5 =
     [\<lparr>pos = 0, ip_hash = 5, ip_seqId = 0, ip_side = OPEN\<rparr>,
      \<lparr>pos = 20, ip_hash = 5, ip_seqId = 0, ip_side = CLOSE\<rparr>,
      \<lparr>pos = 30, ip_hash = 5, ip_seqId = 0, ip_side = OPEN\<rparr>,
      \<lparr>pos = 40, ip_hash = 5, ip_seqId = 0, ip_side = CLOSE\<rparr>]"

definition ex_first :: Sketch where
  "ex_first = handleMinmer ex_mA (new_Sketch ex_params [] [] [])"

definition ex_built :: Sketch where
  "ex_built = fold buildHandleThreadOutput ex_outputs (new_Sketch ex_params [] [] [])"

subsection \<open>Notions in which the frequency threshold is specified\<close>

text \<open>
  The occurrence count of a hash is the number of its interval points, the size of its vector
  in the position map, which is what the histogram counts. \<open>point_counts\<close> are the counts
  that occur, \<open>hashes_with_at_least sk c\<close> is the number of hashes of the map with at least
  \<open>c\<close> interval points, \<open>ignore_bound\<close> is the value that \<^verbatim>\<open>minmerToIgnore\<close> gets for the
  index. \<open>above h c\<close> sums the entries of a histogram whose key is at least \<open>c\<close>.
\<close>

definition above :: "(nat \<times> nat) list \<Rightarrow> nat \<Rightarrow> nat" where
  "above h c = sum_list (map snd (filter (\<lambda>e. c \<le> fst e) h))"

definition point_counts :: "Sketch \<Rightarrow> nat set" where
  "point_counts sk = (\<lambda>e. length (snd e)) ` set (minmerPosLookupIndex sk)"

definition hashes_with_at_least :: "Sketch \<Rightarrow> nat \<Rightarrow> nat" where
  "hashes_with_at_least sk c = length (filter (\<lambda>e. c \<le> length (snd e)) (minmerPosLookupIndex sk))"

definition ignore_bound :: "percent_arith \<Rightarrow> Sketch \<Rightarrow> int" where
  "ignore_bound fp sk = minmerToIgnore fp (param sk) (int (length (minmerPosLookupIndex sk)))"

text \<open>
  The example index after the histogram, and after the pruning. It has three hashes and a
  percentage of 70: in floating point 3 times 70 is 210, and 210 over 100 is the value
  nearest to 2.1, which the conversion truncates to 2. \<open>ex_percent_of_total\<close> gives that
  value at the input of the example, the only one at which it is used.
\<close>

definition ex_percent_of_total :: percent_arith where
  "ex_percent_of_total n pct = (if n = 3 \<and> pct = 70 then 2 else 0)"

definition ex_hist :: Sketch where
  "ex_hist = computeFreqHist ex_percent_of_total ex_built"

definition ex_pruned :: Sketch where
  "ex_pruned = dropFreqSeedSet (computeFreqSeedSet ex_hist)"

subsection \<open>Notions for the index file and the diagnostics\<close>

text \<open>
  \<open>shown label v d\<close>: the diagnostic \<open>d\<close> prints the value \<open>v\<close> right after a text that
  ends with \<open>label\<close>.
\<close>

fun shown :: "string \<Rightarrow> int \<Rightarrow> item list \<Rightarrow> bool" where
  "shown label v (Str s # Num w # d) = ((suffix label s \<and> w = v) \<or> shown label v d)"
| "shown label v (x # d) = shown label v d"
| "shown label v [] = False"

text \<open>An environment with no reference sequence, and a file system holding the example index.\<close>

definition ex_env :: Env where
  "ex_env = \<lparr> for_each_seq_in_file = (\<lambda>fileName target_names. []),
              addMinmers = (\<lambda>seq p seqCounter. []),
              percent_of_total = ex_percent_of_total \<rparr>"

definition ex_fs :: filesystem where
  "ex_fs = writeIndex ex_pruned Map.empty"

text \<open>
  The diagnostic shows each of the three parameters by name, with the value stored in the
  index and with the current value.
\<close>

definition index_params_diag_ok :: "Parameters \<Rightarrow> nat \<Rightarrow> nat \<Rightarrow> nat \<Rightarrow> item list \<Rightarrow> bool" where
  "index_params_diag_ok p a b c d =
     (shown ''segLength='' (int a) d \<and> shown ''segLength='' (int (segLength p)) d
      \<and> shown ''sketchSize='' (int b) d \<and> shown ''sketchSize='' (int (sketchSize p)) d
      \<and> shown ''kmerSize='' (int c) d \<and> shown ''kmerSize='' (int (kmerSize p)) d)"

text \<open>
  A position map has one entry per key and a set of seeds has no seed twice; \<open>wf_index\<close>
  says so of their list representations. \<open>enc_entry\<close> is what \<^verbatim>\<open>writePosListBinary\<close>
  writes for one entry of the map.
\<close>

definition wf_index :: "Sketch \<Rightarrow> bool" where
  "wf_index sk = (distinct (map fst (minmerPosLookupIndex sk)) \<and> distinct (frequentSeeds sk))"

definition same_index_params :: "Parameters \<Rightarrow> Parameters \<Rightarrow> bool" where
  "same_index_params p q =
     (segLength p = segLength q \<and> sketchSize p = sketchSize q \<and> kmerSize p = kmerSize q)"

definition enc_entry :: "hash_t \<times> IntervalPoint list \<Rightarrow> cell list" where
  "enc_entry e = U64 (unat (fst e)) # U64 (length (snd e)) # map PointRec (snd e)"

section \<open>Alignment of mapping records (computeAlignments.hpp)\<close>

subsection \<open>Parsing a mapping row\<close>

text \<open>
  The record of one mapping (\<^verbatim>\<open>align_types.hpp\<close> is not among the sources). The identity is a
  \<^verbatim>\<open>float\<close>; its type is left open.
\<close>

record 'f MappingBoundaryRow =
  qId :: string
  qStartPos :: offset_t
  qEndPos :: offset_t
  row_strand :: strnd
  refId :: string
  rStartPos :: offset_t
  rEndPos :: offset_t
  mashmap_estimated_identity :: 'f
  rankMapping :: int

text \<open>
  What the parser takes from code outside the file: \<^verbatim>\<open>CommonFunc::split\<close>,
  \<^verbatim>\<open>wfmash::is_a_number\<close>, \<^verbatim>\<open>std::stof\<close> and the constant \<^verbatim>\<open>fixed::percentage_identity\<close>.
\<close>

record 'f ParseEnv =
  CommonFunc_split :: "string \<Rightarrow> char \<Rightarrow> string list"
  is_a_number :: "string \<Rightarrow> bool"
  stof :: "string \<Rightarrow> 'f"
  percentage_identity :: 'f

text \<open>
  The ways in which \<^verbatim>\<open>parseMashmapRow\<close> does not return: the assertion on the number of
  tokens fails; an element is read past the end of the token vector, or the last element of
  an empty vector is taken (undefined behaviour in C++); \<^verbatim>\<open>std::stoi\<close> throws.
\<close>

datatype parse_failure =
  AssertionFailed
  | OutOfBoundsRead nat
  | BackOfEmptyVector
  | InvalidArgument
  | OutOfRange

definition isspace :: "char \<Rightarrow> bool" where
  "isspace c = (c = CHR '' '' \<or> c = CHR 0x09 \<or> c = CHR 0x0A \<or> c = CHR 0x0B
                \<or> c = CHR 0x0C \<or> c = CHR 0x0D)"

text \<open>
  \<^verbatim>\<open>while (ss >> word) tokens.push_back(word)\<close>: the maximal runs of characters that are not
  white space. \<open>w\<close> is the word read so far.
\<close>

fun tokenize :: "string \<Rightarrow> string \<Rightarrow> string list" where
  "tokenize [] w = (if w = [] then [] else [w])"
| "tokenize (c # cs) w =
     (if isspace c then (if w = [] then tokenize cs [] else w # tokenize cs [])
      else tokenize cs (w @ [c]))"

definition isdigit :: "char \<Rightarrow> bool" where
  "isdigit c = (48 \<le> (of_char c :: nat) \<and> (of_char c :: nat) \<le> 57)"

definition digit_value :: "char \<Rightarrow> int" where
  "digit_value c = int (of_char c :: nat) - 48"

text \<open>
  \<^verbatim>\<open>std::stoi\<close>: leading white space, an optional sign, then the longest run of decimal
  digits; \<^verbatim>\<open>invalid_argument\<close> when there is no digit, \<^verbatim>\<open>out_of_range\<close> when the value is
  not an \<^verbatim>\<open>int\<close>.
\<close>

definition stoi :: "string \<Rightarrow> parse_failure + int" where
  "stoi s =
     (let s1 = dropWhile isspace s;
          negative = (s1 \<noteq> [] \<and> hd s1 = CHR ''-'');
          s2 = (if s1 \<noteq> [] \<and> (hd s1 = CHR ''-'' \<or> hd s1 = CHR ''+'') then tl s1 else s1);
          ds = takeWhile isdigit s2;
          v = foldl (\<lambda>a c. 10 * a + digit_value c) 0 ds
      in if ds = [] then Inl InvalidArgument
         else if negative then (if - v < - (2 ^ 31) then Inl OutOfRange else Inr (- v))
         else (if v > 2 ^ 31 - 1 then Inl OutOfRange else Inr v))"

definition bind_sum :: "'e + 'a \<Rightarrow> ('a \<Rightarrow> 'e + 'b) \<Rightarrow> 'e + 'b" where
  "bind_sum m f = (case m of Inl e \<Rightarrow> Inl e | Inr x \<Rightarrow> f x)"

text \<open>
  \<^verbatim>\<open>parseMashmapRow\<close>, with assertions enabled. The assertion admits nine tokens; the next
  statement reads \<^verbatim>\<open>tokens[12]\<close> without a test. The record is an output parameter of which
  the function writes every field but \<^verbatim>\<open>rankMapping\<close>; \<open>rank\<close> is the value that field has.
\<close>

definition parseMashmapRow ::
  "'f ParseEnv \<Rightarrow> string \<Rightarrow> int \<Rightarrow> parse_failure + 'f MappingBoundaryRow" where
  "parseMashmapRow env mappingRecordLine rank =
     (let tokens = tokenize mappingRecordLine []
      in if \<not> length tokens \<ge> 9 then Inl AssertionFailed
         else if \<not> 12 < length tokens then Inl (OutOfBoundsRead 12)
         else
           let mm_id_vec = CommonFunc_split env (tokens ! 12) CHR '':''
           in if mm_id_vec = [] then Inl BackOfEmptyVector
              else
                let mm_id = (if is_a_number env (last mm_id_vec) then stof env (last mm_id_vec)
                             else percentage_identity env)
                in bind_sum (stoi (tokens ! 2)) (\<lambda>qs.
                   bind_sum (stoi (tokens ! 3)) (\<lambda>qe.
                   bind_sum (stoi (tokens ! 7)) (\<lambda>rs.
                   bind_sum (stoi (tokens ! 8)) (\<lambda>re.
                   Inr \<lparr> qId = tokens ! 0, qStartPos = qs, qEndPos = qe,
                         row_strand = (if tokens ! 4 = ''+'' then FWD else REV),
                         refId = tokens ! 5, rStartPos = rs, rEndPos = re,
                         mashmap_estimated_identity = mm_id, rankMapping = rank \<rparr>)))))"

definition ex_short_line :: string where
  "ex_short_line = ''q0 10000 0 100 + r0 2000 50 150''"

definition ex_full_line :: string where
  "ex_full_line = ''q0 10000 0 100 + r0 2000 50 150 60 100 80 id:f:95.0''"

subsection \<open>Preparing one alignment\<close>

text \<open>
  The fields of \<^verbatim>\<open>align::Parameters\<close> that \<^verbatim>\<open>doAlignment\<close> itself reads (its header is not
  among the sources); the scoring parameters go to the kernel unchanged.
  \<^verbatim>\<open>wflign_max_len_minor\<close> is an unsigned 64-bit value.
\<close>

record align_Parameters =
  threads :: nat
  wflign_max_len_minor :: nat
  split_mappings :: bool
  sam_format :: bool

text \<open>
  An indexed FASTA handle (\<^verbatim>\<open>faidx_t\<close> of htslib, outside the repository), by its two
  operations: the length of a named sequence (\<open>-1\<close> when there is none) and the fetch of a
  range, which returns no buffer when it fails. Every worker has a handle of its own on the
  same file, so one value stands for all of them.
\<close>

record faidx_t =
  faidx_seq_len :: "string \<Rightarrow> int"
  faidx_fetch_seq64 :: "string \<Rightarrow> int \<Rightarrow> int \<Rightarrow> string option"

text \<open>
  Modelled from the spec: the sequence store's \<open>fetch(seq_name, start, end_exclusive)\<close>
  returns a buffer of exact length \<open>end - start\<close>. \<open>fetch_contract\<close> states this of a handle
  for the ranges inside the named sequence; \<open>store_of\<close> is the handle on given sequences
  that fetches exactly so.
\<close>

definition fetch_contract :: "faidx_t \<Rightarrow> string \<Rightarrow> bool" where
  "fetch_contract fai seq_name =
     (\<forall>b e. 0 \<le> b \<and> b \<le> e \<and> e \<le> faidx_seq_len fai seq_name \<longrightarrow>
        (\<exists>buf. faidx_fetch_seq64 fai seq_name b e = Some buf \<and> int (length buf) = e - b))"

definition store_of :: "(string \<rightharpoonup> string) \<Rightarrow> faidx_t" where
  "store_of seqs =
     \<lparr> faidx_seq_len = (\<lambda>n. case seqs n of None \<Rightarrow> - 1 | Some s \<Rightarrow> int (length s)),
       faidx_fetch_seq64 = (\<lambda>n b e. case seqs n of None \<Rightarrow> None
          | Some s \<Rightarrow> if 0 \<le> b \<and> b \<le> e \<and> e \<le> int (length s)
                      then Some (take (nat (e - b)) (drop (nat b) s)) else None) \<rparr>"

text \<open>
  Modelled from the spec: \<^verbatim>\<open>makeUpperCaseAndValidDNA\<close> and \<^verbatim>\<open>reverseComplement\<close> of
  \<^verbatim>\<open>commonFunc.hpp\<close> (not among the sources). The buffer is uppercased and every byte outside
  A, C, G, T, N becomes N; the reverse complement reverses and exchanges A with T and C
  with G.
\<close>

definition canonical_base :: "char \<Rightarrow> char" where
  "canonical_base c =
     (if c = CHR ''A'' \<or> c = CHR ''a'' then CHR ''A''
      else if c = CHR ''C'' \<or> c = CHR ''c'' then CHR ''C''
      else if c = CHR ''G'' \<or> c = CHR ''g'' then CHR ''G''
      else if c = CHR ''T'' \<or> c = CHR ''t'' then CHR ''T''
      else CHR ''N'')"

definition makeUpperCaseAndValidDNA :: "string \<Rightarrow> string" where
  "makeUpperCaseAndValidDNA s = map canonical_base s"

definition complement :: "char \<Rightarrow> char" where
  "complement c =
     (if c = CHR ''A'' then CHR ''T'' else if c = CHR ''T'' then CHR ''A''
      else if c = CHR ''C'' then CHR ''G'' else if c = CHR ''G'' then CHR ''C'' else c)"

definition reverseComplement :: "string \<Rightarrow> string" where
  "reverseComplement s = rev (map complement s)"

text \<open>Conversions between the signed and the unsigned 64-bit reading of a value.\<close>

definition to_u64 :: "int \<Rightarrow> nat" where
  "to_u64 x = nat (x mod 2 ^ 64)"

definition to_s64 :: "nat \<Rightarrow> int" where
  "to_s64 n = (if n mod 2 ^ 64 < 2 ^ 63 then int (n mod 2 ^ 64) else int (n mod 2 ^ 64) - 2 ^ 64)"

text \<open>
  The two paddings are unsigned 64-bit values; the comparisons with
  \<^verbatim>\<open>wflign_max_len_minor\<close> are made on the unsigned reading of the signed operand.
\<close>

definition head_padding :: "align_Parameters \<Rightarrow> 'f MappingBoundaryRow \<Rightarrow> nat" where
  "head_padding p r =
     (if to_u64 (rStartPos r) \<ge> wflign_max_len_minor p then wflign_max_len_minor p
      else to_u64 (rStartPos r))"

definition tail_padding :: "align_Parameters \<Rightarrow> int \<Rightarrow> 'f MappingBoundaryRow \<Rightarrow> nat" where
  "tail_padding p ref_size r =
     (if to_u64 (ref_size - rEndPos r) \<ge> wflign_max_len_minor p then wflign_max_len_minor p
      else to_u64 (ref_size - rEndPos r))"

function to_string_nat :: "nat \<Rightarrow> string" where
  "to_string_nat n =
     (if n < 10 then [char_of (48 + n)]
      else to_string_nat (n div 10) @ [char_of (48 + n mod 10)])"
  by pat_completeness auto
termination
  by (relation "measure id") auto

definition to_string :: "int \<Rightarrow> string" where
  "to_string i = (if i < 0 then CHR ''-'' # to_string_nat (nat (- i)) else to_string_nat (nat i))"

text \<open>
  The arguments of the call of the kernel, \<^verbatim>\<open>wflign_affine_wavefront\<close>. The reference is
  passed as a pointer \<open>head_padding\<close> bytes into the fetched buffer: \<open>target_buffer\<close> is the
  whole buffer and \<open>target_offset\<close> the position of the pointer in it.
\<close>

record 'f KernelCall =
  query_name :: string
  query :: string
  query_total_length :: int
  query_offset :: int
  query_length :: int
  query_is_rev :: bool
  target_name :: string
  target_buffer :: string
  target_offset :: nat
  target_total_length :: int
  target_start :: int
  target_length :: int
  estimated_identity :: 'f

datatype align_failure = NullReferenceBuffer | NullQueryBuffer | QueryLengthAssertion

text \<open>
  \<^verbatim>\<open>doAlignment\<close> up to the call of the kernel. A fetch that returns no buffer is
  dereferenced by the source; the model stops there.
\<close>

definition doAlignment_call ::
  "align_Parameters \<Rightarrow> faidx_t \<Rightarrow> faidx_t \<Rightarrow> 'f MappingBoundaryRow \<Rightarrow> align_failure + 'f KernelCall" where
  "doAlignment_call p tfaid qfaid currentRecord =
     (let ref_size = faidx_seq_len tfaid (refId currentRecord);
          head = head_padding p currentRecord;
          tail = tail_padding p ref_size currentRecord
      in case faidx_fetch_seq64 tfaid (refId currentRecord)
                (to_s64 (to_u64 (rStartPos currentRecord - int head)))
                (to_s64 (to_u64 (rEndPos currentRecord + int tail))) of
           None \<Rightarrow> Inl NullReferenceBuffer
         | Some got_ref \<Rightarrow>
             let ref_seq = makeUpperCaseAndValidDNA got_ref;
                 refLen = rEndPos currentRecord - rStartPos currentRecord;
                 query_size = faidx_seq_len qfaid (qId currentRecord)
             in case faidx_fetch_seq64 qfaid (qId currentRecord)
                       (qStartPos currentRecord) (qEndPos currentRecord) of
                  None \<Rightarrow> Inl NullQueryBuffer
                | Some got_query \<Rightarrow>
                    let query_seq = makeUpperCaseAndValidDNA got_query;
                        queryLen = qEndPos currentRecord - qStartPos currentRecord;
                        queryRegionStrand =
                          (if row_strand currentRecord = FWD then take (nat queryLen) query_seq
                           else reverseComplement (take (nat queryLen) query_seq));
                        query_name_suffix =
                          (if split_mappings p \<and> sam_format p
                           then ''_'' @ to_string (rankMapping currentRecord) else [])
                    in if \<not> queryLen \<le> query_size then Inl QueryLengthAssertion
                       else Inr \<lparr> query_name = qId currentRecord @ query_name_suffix,
                                  query = queryRegionStrand,
                                  query_total_length = query_size,
                                  query_offset = qStartPos currentRecord,
                                  query_length = queryLen,
                                  query_is_rev = (row_strand currentRecord \<noteq> FWD),
                                  target_name = refId currentRecord,
                                  target_buffer = ref_seq,
                                  target_offset = head,
                                  target_total_length = ref_size,
                                  target_start = rStartPos currentRecord,
                                  target_length = refLen,
                                  estimated_identity = mashmap_estimated_identity currentRecord \<rparr>)"

text \<open>
  \<^verbatim>\<open>doAlignment\<close>: the string that the kernel (outside the repository) writes to \<open>output\<close>.
\<close>

definition doAlignment ::
  "('f KernelCall \<Rightarrow> string) \<Rightarrow> align_Parameters \<Rightarrow> faidx_t \<Rightarrow> faidx_t
     \<Rightarrow> 'f MappingBoundaryRow \<Rightarrow> align_failure + string" where
  "doAlignment wflign_affine_wavefront p tfaid qfaid currentRecord =
     (case doAlignment_call p tfaid qfaid currentRecord of
        Inl e \<Rightarrow> Inl e
      | Inr call \<Rightarrow> Inr (wflign_affine_wavefront call))"

subsection \<open>The reader, the workers and the writer\<close>

text \<open>
  \<^verbatim>\<open>computeAlignments\<close> runs one reader thread, \<^verbatim>\<open>param.threads\<close> worker threads and one
  writer thread over two bounded queues and atomic flags. The threads are modelled by their
  interleavings: a state holds the shared memory and, for every thread, the point it has
  reached; a step of a thread performs its next operation on shared memory (a push, a
  \<^verbatim>\<open>try_pop\<close>, a load or a store of a flag) together with the thread-local computation
  that leads to it. A schedule is the list of the threads that take the successive steps. The
  evaluation of \<^verbatim>\<open>still_working\<close>, which loads the flags one after the other, is taken as
  one step. A thread that fails (an exception, an assertion, a null buffer) ends the process.
\<close>

datatype thread_id = Reader | Worker nat | Writer

datatype 'f reader_pc =
  R_loop
  | R_push "'f MappingBoundaryRow \<times> string"
  | R_store_done
  | R_finished

datatype 'f worker_pc =
  W_start
  | W_try_pop
  | W_load_reader_done
  | W_align "'f MappingBoundaryRow \<times> string"
  | W_push string
  | W_store_not_working
  | W_finished

datatype writer_pc =
  Wr_try_pop
  | Wr_still_working
  | Wr_finished

record 'f Aligner =
  param_of :: align_Parameters
  parse_env :: "'f ParseEnv"
  target_faidx :: faidx_t
  query_faidx :: faidx_t
  kernel :: "'f KernelCall \<Rightarrow> string"
  queue_capacity :: nat

record 'f pipeline =
  mappingListStream :: "string list"
  seq_queue :: "('f MappingBoundaryRow \<times> string) list"
  paf_queue :: "string list"
  reader_done :: bool
  working :: "bool list"
  outstrm :: "string list"
  reader :: "'f reader_pc"
  workers :: "'f worker_pc list"
  writer :: writer_pc
  crashed :: bool

text \<open>
  The state when the threads are launched: \<^verbatim>\<open>reader_done\<close> is false and every
  \<^verbatim>\<open>working\<close> flag has been set to true by the main thread.
\<close>

definition launch :: "'f Aligner \<Rightarrow> string list \<Rightarrow> 'f pipeline" where
  "launch a mapping_lines =
     \<lparr> mappingListStream = mapping_lines, seq_queue = [], paf_queue = [], reader_done = False,
       working = replicate (threads (param_of a)) True, outstrm = [],
       reader = R_loop, workers = replicate (threads (param_of a)) W_start,
       writer = Wr_try_pop, crashed = False \<rparr>"

definition still_working :: "bool list \<Rightarrow> bool" where
  "still_working ws = foldl (\<lambda>ongoing w. ongoing \<or> w) False ws"

text \<open>
  The reader: \<^verbatim>\<open>getline\<close>, and for a line that is not empty \<^verbatim>\<open>parseMashmapRow\<close> and a push
  (which spins while the queue is full); at the end of the file it stores \<^verbatim>\<open>reader_done\<close>.
\<close>

definition reader_step :: "'f Aligner \<Rightarrow> 'f pipeline \<Rightarrow> 'f pipeline" where
  "reader_step a s =
     (case reader s of
        R_loop \<Rightarrow>
          (case mappingListStream s of
             [] \<Rightarrow> s\<lparr>reader := R_store_done\<rparr>
           | mappingRecordLine # rest \<Rightarrow>
               if mappingRecordLine = [] then s\<lparr>mappingListStream := rest\<rparr>
               else (case parseMashmapRow (parse_env a) mappingRecordLine 0 of
                       Inl e \<Rightarrow> s\<lparr>mappingListStream := rest, crashed := True\<rparr>
                     | Inr currentRecord \<Rightarrow>
                         s\<lparr>mappingListStream := rest,
                           reader := R_push (currentRecord, mappingRecordLine)\<rparr>))
      | R_push q \<Rightarrow>
          if length (seq_queue s) < queue_capacity a
          then s\<lparr>seq_queue := seq_queue s @ [q], reader := R_loop\<rparr>
          else s
      | R_store_done \<Rightarrow> s\<lparr>reader_done := True, reader := R_finished\<rparr>
      | R_finished \<Rightarrow> s)"

text \<open>
  A worker: it stores its flag, then loops: a \<^verbatim>\<open>try_pop\<close> of the input queue; when that
  fails, a load of \<^verbatim>\<open>reader_done\<close> that ends the loop when it is set; when it succeeds,
  \<^verbatim>\<open>doAlignment\<close> and, for an output that is not empty, a push to the output queue. After the
  loop it clears its flag.
\<close>

definition worker_step :: "'f Aligner \<Rightarrow> nat \<Rightarrow> 'f pipeline \<Rightarrow> 'f pipeline" where
  "worker_step a tid s =
     (if \<not> tid < length (workers s) then s
      else
        case workers s ! tid of
          W_start \<Rightarrow> s\<lparr>working := (working s)[tid := True], workers := (workers s)[tid := W_try_pop]\<rparr>
        | W_try_pop \<Rightarrow>
            (case seq_queue s of
               [] \<Rightarrow> s\<lparr>workers := (workers s)[tid := W_load_reader_done]\<rparr>
             | rec # rest \<Rightarrow> s\<lparr>seq_queue := rest, workers := (workers s)[tid := W_align rec]\<rparr>)
        | W_load_reader_done \<Rightarrow>
            if reader_done s then s\<lparr>workers := (workers s)[tid := W_store_not_working]\<rparr>
            else s\<lparr>workers := (workers s)[tid := W_try_pop]\<rparr>
        | W_align rec \<Rightarrow>
            (case doAlignment (kernel a) (param_of a) (target_faidx a) (query_faidx a) (fst rec) of
               Inl e \<Rightarrow> s\<lparr>crashed := True\<rparr>
             | Inr output \<Rightarrow>
                 if output \<noteq> [] then s\<lparr>workers := (workers s)[tid := W_push output]\<rparr>
                 else s\<lparr>workers := (workers s)[tid := W_try_pop]\<rparr>)
        | W_push paf_rec \<Rightarrow>
            if length (paf_queue s) < queue_capacity a
            then s\<lparr>paf_queue := paf_queue s @ [paf_rec], workers := (workers s)[tid := W_try_pop]\<rparr>
            else s
        | W_store_not_working \<Rightarrow>
            s\<lparr>working := (working s)[tid := False], workers := (workers s)[tid := W_finished]\<rparr>
        | W_finished \<Rightarrow> s)"

text \<open>
  The writer: a \<^verbatim>\<open>try_pop\<close> of the output queue; a popped string is written to the output
  stream; when the pop fails, \<^verbatim>\<open>still_working\<close> is evaluated and the loop ends when no
  worker is working.
\<close>

definition writer_step :: "'f pipeline \<Rightarrow> 'f pipeline" where
  "writer_step s =
     (case writer s of
        Wr_try_pop \<Rightarrow>
          (case paf_queue s of
             [] \<Rightarrow> s\<lparr>writer := Wr_still_working\<rparr>
           | paf_lines # rest \<Rightarrow> s\<lparr>paf_queue := rest, outstrm := outstrm s @ [paf_lines]\<rparr>)
      | Wr_still_working \<Rightarrow>
          if \<not> still_working (working s) then s\<lparr>writer := Wr_finished\<rparr>
          else s\<lparr>writer := Wr_try_pop\<rparr>
      | Wr_finished \<Rightarrow> s)"

definition step :: "'f Aligner \<Rightarrow> thread_id \<Rightarrow> 'f pipeline \<Rightarrow> 'f pipeline" where
  "step a t s =
     (if crashed s then s
      else case t of Reader \<Rightarrow> reader_step a s | Worker tid \<Rightarrow> worker_step a tid s
                   | Writer \<Rightarrow> writer_step s)"

definition run :: "'f Aligner \<Rightarrow> thread_id list \<Rightarrow> 'f pipeline \<Rightarrow> 'f pipeline" where
  "run a schedule s = fold (step a) schedule s"

text \<open>All threads have ended, so that the joins of \<^verbatim>\<open>computeAlignments\<close> return.\<close>

definition all_joined :: "'f pipeline \<Rightarrow> bool" where
  "all_joined s =
     (\<not> crashed s \<and> reader s = R_finished \<and> list_all (\<lambda>w. w = W_finished) (workers s)
      \<and> writer s = Wr_finished)"

text \<open>
  An example: one worker, one mapping line, a reference of 2000 bases and a query of 10000, a
  kernel that returns one line. In \<open>ex_schedule\<close> the writer finds the output queue empty
  before the worker has pushed, and evaluates \<^verbatim>\<open>still_working\<close> after the worker has ended.
\<close>

definition ex_parse_env :: "rat ParseEnv" where
  "ex_parse_env = \<lparr> CommonFunc_split = (\<lambda>s delim. [''id'', ''f'', ''95.0'']),
                    is_a_number = (\<lambda>s. True), stof = (\<lambda>s. 95),
                    percentage_identity = 85 \<rparr>"

definition ex_row :: "rat MappingBoundaryRow" where
  "ex_row = \<lparr> qId = ''q0'', qStartPos = 0, qEndPos = 100, row_strand = FWD, refId = ''r0'',
              rStartPos = 50, rEndPos = 150, mashmap_estimated_identity = 95, rankMapping = 0 \<rparr>"

definition ex_align_params :: align_Parameters where
  "ex_align_params = \<lparr> threads = 1, wflign_max_len_minor = 75, split_mappings = False,
                       sam_format = False \<rparr>"

definition ex_targets :: faidx_t where
  "ex_targets = store_of [''r0'' \<mapsto> replicate 2000 CHR ''a'']"

definition ex_queries :: faidx_t where
  "ex_queries = store_of [''q0'' \<mapsto> replicate 10000 CHR ''c'']"

definition ex_output :: string where
  "ex_output = ''q0 10000 0 100 + r0 2000 50 150 100 100 60''"

definition ex_aligner :: "rat Aligner" where
  "ex_aligner = \<lparr> param_of = ex_align_params, parse_env = ex_parse_env,
                   target_faidx = ex_targets, query_faidx = ex_queries,
                   kernel = (\<lambda>call. ex_output),
                   queue_capacity = 131072 \<rparr>"

definition ex_schedule :: "thread_id list" where
  "ex_schedule =
     [Writer,
      Reader, Reader, Reader, Reader,
      Worker 0, Worker 0, Worker 0, Worker 0, Worker 0, Worker 0, Worker 0,
      Writer]"

section \<open>Verification\<close>

subsection \<open>The accumulation of thread outputs keeps the interval points well formed\<close>

lemma set_map_set: "set (map_set k v m) \<subseteq> insert (k, v) (set m)"
  by (induction m) (auto split: if_splits)

lemma map_of_map_set: "map_of (map_set k v m) = (map_of m)(k \<mapsto> v)"
  by (induction m) (auto simp: fun_eq_iff)

lemma map_at_in_set: "map_at m k \<noteq> [] \<Longrightarrow> (k, map_at m k) \<in> set m"
  by (auto simp: map_at_def split: option.splits dest: map_of_SomeD)

lemma alternating_append: "alternating xs \<Longrightarrow> alternating ys \<Longrightarrow> alternating (xs @ ys)"
  by (induction xs rule: alternating.induct) auto

lemma alternating_last_CLOSE: "alternating xs \<Longrightarrow> xs \<noteq> [] \<Longrightarrow> ip_side (last xs) = CLOSE"
  by (induction xs rule: alternating.induct) auto

lemma alternating_move_last:
  "alternating xs \<Longrightarrow> xs \<noteq> [] \<Longrightarrow> alternating (butlast xs @ [(last xs)\<lparr>pos := e\<rparr>])"
  by (induction xs rule: alternating.induct) auto

lemma alternating_nth:
  "alternating xs \<Longrightarrow> i < length xs \<Longrightarrow> ip_side (xs ! i) = (if even i then OPEN else CLOSE)"
proof (induction xs arbitrary: i rule: alternating.induct)
  case (3 p q r)
  show ?case
  proof (cases i)
    case 0
    with 3 show ?thesis by simp
  next
    case (Suc j)
    show ?thesis
    proof (cases j)
      case 0
      with Suc 3 show ?thesis by simp
    next
      case (Suc k)
      with \<open>i = Suc j\<close> 3 show ?thesis by simp
    qed
  qed
qed simp_all

lemma alternating_even: "alternating xs \<Longrightarrow> even (length xs)"
  by (induction xs rule: alternating.induct) auto

lemma adjacent_merged_append2:
  "adjacent_merged xs
   \<Longrightarrow> (xs \<noteq> [] \<Longrightarrow> ip_side (last xs) = CLOSE \<Longrightarrow> ip_side x = OPEN \<Longrightarrow> pos (last xs) \<noteq> pos x)
   \<Longrightarrow> (ip_side x = CLOSE \<and> ip_side y = OPEN \<longrightarrow> pos x \<noteq> pos y)
   \<Longrightarrow> adjacent_merged (xs @ [x, y])"
  by (induction xs rule: adjacent_merged.induct) auto

lemma adjacent_merged_move_last:
  "adjacent_merged xs \<Longrightarrow> xs \<noteq> [] \<Longrightarrow> ip_side (last xs) = CLOSE
   \<Longrightarrow> adjacent_merged (butlast xs @ [(last xs)\<lparr>pos := e\<rparr>])"
  by (induction xs rule: adjacent_merged.induct) auto

lemma adjacent_merged_nth:
  "adjacent_merged xs \<Longrightarrow> Suc j < length xs \<Longrightarrow> ip_side (xs ! j) = CLOSE
   \<Longrightarrow> ip_side (xs ! Suc j) = OPEN \<Longrightarrow> pos (xs ! j) \<noteq> pos (xs ! Suc j)"
proof (induction xs arbitrary: j rule: adjacent_merged.induct)
  case (1 a b r)
  then show ?case by (cases j) auto
qed simp_all

lemma points_inv_map_set:
  "points_inv m \<Longrightarrow> v \<noteq> [] \<Longrightarrow> points_ok k v \<Longrightarrow> points_inv (map_set k v m)"
  using set_map_set [of k v m] by (auto simp: points_inv_def)

lemma points_ok_map_at: "points_inv m \<Longrightarrow> points_ok k (map_at m k)"
proof (cases "map_at m k = []")
  case True
  then show ?thesis by (simp add: points_ok_def)
next
  case False
  assume "points_inv m"
  with map_at_in_set [OF False] show ?thesis by (auto simp: points_inv_def)
qed

lemma points_ok_append_pair:
  assumes "points_ok h l" and "l = [] \<or> pos (last l) \<noteq> s"
  shows "points_ok h (l @ [\<lparr>pos = s, ip_hash = h, ip_seqId = q, ip_side = OPEN\<rparr>,
                           \<lparr>pos = e, ip_hash = h, ip_seqId = q, ip_side = CLOSE\<rparr>])"
proof -
  let ?pair = "[\<lparr>pos = s, ip_hash = h, ip_seqId = q, ip_side = OPEN\<rparr>,
                \<lparr>pos = e, ip_hash = h, ip_seqId = q, ip_side = CLOSE\<rparr>]"
  have "alternating ?pair" by simp
  with assms(1) have a: "alternating (l @ ?pair)"
    unfolding points_ok_def by (blast intro: alternating_append)
  have b: "adjacent_merged (l @ ?pair)"
    using assms by (intro adjacent_merged_append2) (auto simp: points_ok_def)
  from a b assms(1) show ?thesis by (simp add: points_ok_def)
qed

lemma points_ok_move_last:
  assumes "points_ok h l" and "l \<noteq> []"
  shows "points_ok h (butlast l @ [(last l)\<lparr>pos := e\<rparr>])"
proof -
  from assms have c: "ip_side (last l) = CLOSE"
    by (simp add: points_ok_def alternating_last_CLOSE)
  have "set (butlast l) \<subseteq> set l" by (auto dest: in_set_butlastD)
  moreover have "last l \<in> set l" using assms(2) by simp
  ultimately have "\<forall>p \<in> set (butlast l @ [(last l)\<lparr>pos := e\<rparr>]). ip_hash p = h"
    using assms(1) by (auto simp: points_ok_def)
  with assms c show ?thesis
    by (simp add: points_ok_def alternating_move_last adjacent_merged_move_last)
qed

text \<open>
  One step of the loop keeps the three facts. The test on the hash of the last point never
  decides: the point is stored under its own hash.
\<close>

lemma handleMinmer_inv:
  assumes "points_inv (minmerPosLookupIndex sk)"
  shows "points_inv (minmerPosLookupIndex (handleMinmer mi sk))"
proof -
  let ?m = "minmerPosLookupIndex sk"
  let ?l = "map_at ?m (hash mi)"
  have ok: "points_ok (hash mi) ?l" using assms by (rule points_ok_map_at)
  show ?thesis
  proof (cases "length ?l = 0 \<or> ip_hash (last ?l) \<noteq> hash mi \<or> pos (last ?l) \<noteq> wpos mi")
    case True
    have "?l = [] \<or> pos (last ?l) \<noteq> wpos mi"
    proof (cases "?l = []")
      case False
      then have "last ?l \<in> set ?l" by simp
      with ok have "ip_hash (last ?l) = hash mi" by (simp add: points_ok_def)
      with True False show ?thesis by simp
    qed simp
    with ok have "points_ok (hash mi)
       (?l @ [\<lparr>pos = wpos mi, ip_hash = hash mi, ip_seqId = seqId mi, ip_side = OPEN\<rparr>,
              \<lparr>pos = wpos_end mi, ip_hash = hash mi, ip_seqId = seqId mi, ip_side = CLOSE\<rparr>])"
      by (rule points_ok_append_pair)
    with assms True show ?thesis
      by (simp add: handleMinmer_def Let_def points_inv_map_set)
  next
    case False
    then have ne: "?l \<noteq> []" by auto
    with ok have "points_ok (hash mi) (butlast ?l @ [(last ?l)\<lparr>pos := wpos_end mi\<rparr>])"
      by (rule points_ok_move_last)
    with assms False show ?thesis
      by (simp add: handleMinmer_def Let_def points_inv_map_set)
  qed
qed

lemma fold_handleMinmer_inv:
  "points_inv (minmerPosLookupIndex sk)
   \<Longrightarrow> points_inv (minmerPosLookupIndex (fold handleMinmer ms sk))"
  by (induction ms arbitrary: sk) (simp_all add: handleMinmer_inv)

lemma buildHandleThreadOutput_inv:
  "points_inv (minmerPosLookupIndex sk)
   \<Longrightarrow> points_inv (minmerPosLookupIndex (buildHandleThreadOutput out sk))"
  by (simp add: buildHandleThreadOutput_def Let_def fold_handleMinmer_inv)

lemma fold_buildHandleThreadOutput_inv:
  "points_inv (minmerPosLookupIndex sk)
   \<Longrightarrow> points_inv (minmerPosLookupIndex (fold buildHandleThreadOutput outs sk))"
  by (induction outs arbitrary: sk) (simp_all add: buildHandleThreadOutput_inv)

lemma new_Sketch_inv: "points_inv (minmerPosLookupIndex (new_Sketch p md sbf idm))"
  by (simp add: new_Sketch_def points_inv_def)

text \<open>
  \<^verbatim>\<open>build\<close> handles one thread output per sequence it accepts and changes the position map
  in no other way, so the index it returns has the same three facts.
\<close>

lemma build_callback_inv:
  assumes "points_inv (minmerPosLookupIndex sk)"
  shows "points_inv (minmerPosLookupIndex (build_callback env e sk))"
proof -
  obtain n s where e: "e = (n, s)" by (cases e)
  obtain i idm where a: "addSequence n (idManager sk) = (i, idm)"
    by (cases "addSequence n (idManager sk)")
  from assms have "points_inv (minmerPosLookupIndex (sk\<lparr>idManager := idm\<rparr>))" by simp
  then have "points_inv (minmerPosLookupIndex
               (buildHandleThreadOutput (buildHelper env (param sk) s i) (sk\<lparr>idManager := idm\<rparr>)))"
    by (rule buildHandleThreadOutput_inv)
  then show ?thesis using assms by (simp add: build_callback_def e a Let_def)
qed

lemma fold_build_callback_inv:
  "points_inv (minmerPosLookupIndex sk)
   \<Longrightarrow> points_inv (minmerPosLookupIndex (fold (build_callback env) es sk))"
  by (induction es arbitrary: sk) (simp_all add: build_callback_inv)

lemma build_files_inv:
  "points_inv (minmerPosLookupIndex sk)
   \<Longrightarrow> points_inv (minmerPosLookupIndex
         (fold (\<lambda>fileName. fold (build_callback env) (f fileName)) files sk))"
  by (induction files arbitrary: sk) (simp_all add: fold_build_callback_inv)

lemma build_inv:
  assumes "points_inv (minmerPosLookupIndex sk)" and "build env b targets sk = Normal sk1"
  shows "points_inv (minmerPosLookupIndex sk1)"
  using assms build_files_inv [of sk env "\<lambda>fileName. for_each_seq_in_file env fileName targets"
      "refSequences (param sk)"]
  by (auto simp: build_def Let_def split: if_splits)

lemma ex_built_positions:
  "minmerPosLookupIndex ex_built =
     [(5, ex_points5),
      (7, [\<lparr>pos = 3, ip_hash = 7, ip_seqId = 0, ip_side = OPEN\<rparr>,
           \<lparr>pos = 9, ip_hash = 7, ip_seqId = 0, ip_side = CLOSE\<rparr>]),
      (9, [\<lparr>pos = 12, ip_hash = 9, ip_seqId = 1, ip_side = OPEN\<rparr>,
           \<lparr>pos = 15, ip_hash = 9, ip_seqId = 1, ip_side = CLOSE\<rparr>])]"
  by (simp add: ex_built_def ex_outputs_def ex_points5_def buildHandleThreadOutput_def
      handleMinmer_def Let_def map_at_def counter_incr_def new_Sketch_def
      ex_mA_def ex_mB_def ex_mC_def ex_mD_def ex_mE_def)

text \<open>
  C9. After the construction, whatever the thread outputs and the order in which they
  arrive, the interval points stored under any hash of the position map are even in
  number and alternate OPEN, CLOSE, OPEN, CLOSE, starting with OPEN.
\<close>

theorem interval_point_parity:
  assumes "(H, l) \<in> set (minmerPosLookupIndex
             (fold buildHandleThreadOutput outs (new_Sketch p md sbf idm)))"
  shows "even (length l) \<and> (\<forall>i < length l. ip_side (l ! i) = (if even i then OPEN else CLOSE))"
proof -
  have "points_inv (minmerPosLookupIndex
          (fold buildHandleThreadOutput outs (new_Sketch p md sbf idm)))"
    by (rule fold_buildHandleThreadOutput_inv) (rule new_Sketch_inv)
  with assms have "alternating l" by (auto simp: points_inv_def points_ok_def)
  then show ?thesis by (simp add: alternating_even alternating_nth)
qed

theorem interval_point_parity_witness:
  "(5, ex_points5) \<in> set (minmerPosLookupIndex
       (fold buildHandleThreadOutput ex_outputs (new_Sketch ex_params [] [] [])))
   \<and> even (length ex_points5)
   \<and> map ip_side ex_points5 = [OPEN, CLOSE, OPEN, CLOSE]"
proof -
  have h: "(5, ex_points5) \<in> set (minmerPosLookupIndex
       (fold buildHandleThreadOutput ex_outputs (new_Sketch ex_params [] [] [])))"
    using ex_built_positions by (simp add: ex_built_def)
  from interval_point_parity [OF h] have "even (length ex_points5)" by simp
  with h show ?thesis by (simp add: ex_points5_def)
qed

lemma ex_first_positions:
  "minmerPosLookupIndex ex_first =
     [(5, [\<lparr>pos = 0, ip_hash = 5, ip_seqId = 0, ip_side = OPEN\<rparr>,
           \<lparr>pos = 10, ip_hash = 5, ip_seqId = 0, ip_side = CLOSE\<rparr>])]"
  by (simp add: ex_first_def handleMinmer_def Let_def map_at_def counter_incr_def new_Sketch_def
      ex_mA_def)

text \<open>
  C4. When the interval points of the hash of an arriving minmer end with a CLOSE point of
  that hash, on the same sequence, at the position where the window of the minmer starts,
  the step of the accumulation moves that CLOSE point to the end of the window and appends
  no pair. Consequently, after the construction, no CLOSE point of a pair is at the position
  of the OPEN point of the next pair on the same sequence.
\<close>

theorem run_merge:
  "(map_of (minmerPosLookupIndex sk) (hash mi) = Some l \<and> l \<noteq> [] \<and> ip_side (last l) = CLOSE
      \<and> pos (last l) = wpos mi \<and> ip_hash (last l) = hash mi \<and> ip_seqId (last l) = seqId mi
    \<longrightarrow> map_of (minmerPosLookupIndex (handleMinmer mi sk))
          = (map_of (minmerPosLookupIndex sk))(hash mi \<mapsto> butlast l @ [(last l)\<lparr>pos := wpos_end mi\<rparr>]))
   \<and> ((H, ps) \<in> set (minmerPosLookupIndex
                       (fold buildHandleThreadOutput outs (new_Sketch p md sbf idm)))
      \<longrightarrow> (\<forall>k. 2 * k + 3 < length ps \<longrightarrow> ip_seqId (ps ! (2 * k + 1)) = ip_seqId (ps ! (2 * k + 2))
            \<longrightarrow> pos (ps ! (2 * k + 1)) \<noteq> pos (ps ! (2 * k + 2))))"
proof (intro conjI impI allI)
  assume a: "map_of (minmerPosLookupIndex sk) (hash mi) = Some l \<and> l \<noteq> [] \<and> ip_side (last l) = CLOSE
      \<and> pos (last l) = wpos mi \<and> ip_hash (last l) = hash mi \<and> ip_seqId (last l) = seqId mi"
  then have "map_at (minmerPosLookupIndex sk) (hash mi) = l" by (simp add: map_at_def)
  with a show "map_of (minmerPosLookupIndex (handleMinmer mi sk))
          = (map_of (minmerPosLookupIndex sk))(hash mi \<mapsto> butlast l @ [(last l)\<lparr>pos := wpos_end mi\<rparr>])"
    by (simp add: handleMinmer_def Let_def map_of_map_set)
next
  fix k
  assume m: "(H, ps) \<in> set (minmerPosLookupIndex
                       (fold buildHandleThreadOutput outs (new_Sketch p md sbf idm)))"
    and k: "2 * k + 3 < length ps"
  have "points_inv (minmerPosLookupIndex
          (fold buildHandleThreadOutput outs (new_Sketch p md sbf idm)))"
    by (rule fold_buildHandleThreadOutput_inv) (rule new_Sketch_inv)
  with m have alt: "alternating ps" and adj: "adjacent_merged ps"
    by (auto simp: points_inv_def points_ok_def)
  from alt k have "ip_side (ps ! (2 * k + 1)) = CLOSE" by (simp add: alternating_nth)
  moreover from alt k have "ip_side (ps ! Suc (2 * k + 1)) = OPEN" by (simp add: alternating_nth)
  moreover from k have "Suc (2 * k + 1) < length ps" by simp
  ultimately have "pos (ps ! (2 * k + 1)) \<noteq> pos (ps ! Suc (2 * k + 1))"
    using adj by (intro adjacent_merged_nth)
  then show "pos (ps ! (2 * k + 1)) \<noteq> pos (ps ! (2 * k + 2))" by simp
qed

theorem run_merge_witness:
  "map_of (minmerPosLookupIndex ex_first) (hash ex_mB)
     = Some [\<lparr>pos = 0, ip_hash = 5, ip_seqId = 0, ip_side = OPEN\<rparr>,
             \<lparr>pos = 10, ip_hash = 5, ip_seqId = 0, ip_side = CLOSE\<rparr>]
   \<and> wpos ex_mB = 10 \<and> wpos_end ex_mB = 20 \<and> seqId ex_mB = 0
   \<and> map_of (minmerPosLookupIndex (handleMinmer ex_mB ex_first)) (hash ex_mB)
     = Some [\<lparr>pos = 0, ip_hash = 5, ip_seqId = 0, ip_side = OPEN\<rparr>,
             \<lparr>pos = 20, ip_hash = 5, ip_seqId = 0, ip_side = CLOSE\<rparr>]
   \<and> (5, ex_points5) \<in> set (minmerPosLookupIndex
         (fold buildHandleThreadOutput ex_outputs (new_Sketch ex_params [] [] [])))
   \<and> 2 * 0 + 3 < length ex_points5
   \<and> ip_seqId (ex_points5 ! (2 * 0 + 1)) = ip_seqId (ex_points5 ! (2 * 0 + 2))
   \<and> pos (ex_points5 ! (2 * 0 + 1)) \<noteq> pos (ex_points5 ! (2 * 0 + 2))"
proof -
  let ?l = "[\<lparr>pos = 0, ip_hash = 5, ip_seqId = 0, ip_side = OPEN\<rparr>,
             \<lparr>pos = 10, ip_hash = (5::hash_t), ip_seqId = 0, ip_side = CLOSE\<rparr>]"
  have a: "map_of (minmerPosLookupIndex ex_first) (hash ex_mB) = Some ?l \<and> ?l \<noteq> []
      \<and> ip_side (last ?l) = CLOSE \<and> pos (last ?l) = wpos ex_mB \<and> ip_hash (last ?l) = hash ex_mB
      \<and> ip_seqId (last ?l) = seqId ex_mB"
    by (simp add: ex_first_positions ex_mB_def)
  have h: "(5, ex_points5) \<in> set (minmerPosLookupIndex
       (fold buildHandleThreadOutput ex_outputs (new_Sketch ex_params [] [] [])))"
    using ex_built_positions by (simp add: ex_built_def)
  have k: "2 * 0 + 3 < length ex_points5"
    and q: "ip_seqId (ex_points5 ! (2 * 0 + 1)) = ip_seqId (ex_points5 ! (2 * 0 + 2))"
    by (simp_all add: ex_points5_def)
  note rm = run_merge [of ex_first ex_mB ?l 5 ex_points5 ex_outputs ex_params "[]" "[]" "[]"]
  from rm a have "map_of (minmerPosLookupIndex (handleMinmer ex_mB ex_first))
          = (map_of (minmerPosLookupIndex ex_first))(hash ex_mB \<mapsto> butlast ?l @ [(last ?l)\<lparr>pos := wpos_end ex_mB\<rparr>])"
    by blast
  then have r1: "map_of (minmerPosLookupIndex (handleMinmer ex_mB ex_first)) (hash ex_mB)
     = Some [\<lparr>pos = 0, ip_hash = 5, ip_seqId = 0, ip_side = OPEN\<rparr>,
             \<lparr>pos = 20, ip_hash = 5, ip_seqId = 0, ip_side = CLOSE\<rparr>]"
    by (simp add: ex_mB_def)
  from rm h k q have r2: "pos (ex_points5 ! (2 * 0 + 1)) \<noteq> pos (ex_points5 ! (2 * 0 + 2))"
    by blast
  from a r1 h k q r2 show ?thesis by (simp add: ex_mB_def)
qed

subsection \<open>The frequency histogram and the threshold\<close>

lemma above_Nil [simp]: "above [] c = 0" by (simp add: above_def)
lemma above_Cons [simp]: "above ((k, n) # h) c = (if c \<le> k then n else 0) + above h c" 
  by (simp add: above_def)

lemma above_hist_incr: "above (hist_incr k h) c = above h c + (if c \<le> k then 1 else 0)"
  by (induction h) auto

lemma above_fold_hist:
  "above (fold (\<lambda>e. hist_incr (length (snd e))) m h) c
     = above h c + length (filter (\<lambda>e. c \<le> length (snd e)) m)"
  by (induction m arbitrary: h) (auto simp: above_hist_incr)

lemma keys_hist_incr: "fst ` set (hist_incr k h) = insert k (fst ` set h)"
proof (induction h)
  case (Cons e h)
  obtain k' v where e: "e = (k', v)" by (cases e)
  from Cons show ?case unfolding e by (cases "k < k'"; cases "k = k'") auto
qed simp

lemma keys_fold_hist:
  "fst ` set (fold (\<lambda>e. hist_incr (length (snd e))) m h)
     = fst ` set h \<union> (\<lambda>e. length (snd e)) ` set m"
  by (induction m arbitrary: h) (auto simp: keys_hist_incr)

lemma sorted_hist_incr:
  "sorted_wrt (<) (map fst h) \<Longrightarrow> sorted_wrt (<) (map fst (hist_incr k h))"
proof (induction h)
  case Nil
  then show ?case by simp
next
  case (Cons e h)
  obtain k' v where e: "e = (k', v)" by (cases e)
  have "\<forall>x \<in> fst ` set (hist_incr k h). k' < x" if "k' < k"
    using Cons.prems that by (auto simp: keys_hist_incr e)
  with Cons show ?case by (auto simp: e)
qed

lemma sorted_fold_hist:
  "sorted_wrt (<) (map fst h)
   \<Longrightarrow> sorted_wrt (<) (map fst (fold (\<lambda>e. hist_incr (length (snd e))) m h))"
  by (induction m arbitrary: h) (auto simp: sorted_hist_incr)

lemma positive_hist_incr: "\<forall>e \<in> set h. 0 < snd e \<Longrightarrow> \<forall>e \<in> set (hist_incr k h). 0 < snd e"
proof (induction h)
  case (Cons e h)
  obtain k' v where e: "e = (k', v)" by (cases e)
  from Cons show ?case unfolding e by (cases "k < k'"; cases "k = k'") force+
qed simp

lemma positive_fold_hist:
  "\<forall>e \<in> set h. 0 < snd e
   \<Longrightarrow> \<forall>e \<in> set (fold (\<lambda>e. hist_incr (length (snd e))) m h). 0 < snd e"
proof (induction m arbitrary: h)
  case (Cons a m)
  from Cons.prems have "\<forall>e \<in> set (hist_incr (length (snd a)) h). 0 < snd e"
    by (rule positive_hist_incr)
  then show ?case using Cons.IH by simp
qed simp

lemma above_rev: "above (rev h) c = above h c"
  by (simp add: above_def flip: rev_filter rev_map)

lemma above_positive:
  "\<forall>e \<in> set h. 0 < snd e \<Longrightarrow> c \<in> fst ` set h \<Longrightarrow> 0 < above h c"
  by (induction h) force+

lemma above_zero: "\<forall>k \<in> fst ` set h. k < c \<Longrightarrow> above h c = 0"
  by (induction h) auto

lemma threshold_loop_char:
  assumes "sorted_wrt (>) (map fst ds)" and "\<forall>e \<in> set ds. 0 < snd e"
  shows "threshold_loop ds acc ign thr =
           (if \<exists>c \<in> fst ` set ds. acc + int (above ds c) \<le> ign
            then Min {c \<in> fst ` set ds. acc + int (above ds c) \<le> ign}
            else thr)"
  using assms
proof (induction ds arbitrary: acc thr)
  case Nil
  then show ?case by simp
next
  case (Cons e r)
  obtain c n where e: "e = (c, n)" by (cases e)
  let ?S = "{c' \<in> fst ` set (e # r). acc + int (above (e # r) c') \<le> ign}"
  let ?R = "{c' \<in> fst ` set r. (acc + int n) + int (above r c') \<le> ign}"
  from Cons.prems have sorted: "sorted_wrt (>) (map fst r)" and pos: "\<forall>e \<in> set r. 0 < snd e"
    and npos: "0 < n" and below: "\<forall>k \<in> fst ` set r. k < c"
    by (auto simp: e)
  have ab_c: "above (e # r) c = n" using above_zero [OF below] by (simp add: e)
  have ab_r: "above (e # r) c' = n + above r c'" if "c' \<in> fst ` set r" for c'
    using below that by (auto simp: e)
  have S_eq: "?S = (if acc + int n \<le> ign then {c} else {}) \<union> ?R"
    using ab_c ab_r below by (auto simp: e)
  have finR: "finite ?R" by simp
  have Rlt: "\<forall>x \<in> ?R. x < c" using below by auto
  have IH: "threshold_loop r (acc + int n) ign t =
           (if ?R \<noteq> {} then Min ?R else t)" for t
    using Cons.IH [OF sorted pos, of "acc + int n" t] by auto
  have Rempty: "?R = {}" if "ign \<le> acc + int n"
  proof -
    have "0 < above r c'" if "c' \<in> fst ` set r" for c'
      using above_positive [OF pos that] .
    then show ?thesis using that by force
  qed
  consider (lt) "acc + int n < ign" | (eq) "acc + int n = ign" | (gt) "acc + int n > ign"
    by linarith
  then show ?case
  proof cases
    case lt
    then have S: "?S = insert c ?R" using S_eq by auto
    have "Min (insert c ?R) = (if ?R \<noteq> {} then Min ?R else c)"
    proof (cases "?R = {}")
      case True
      show ?thesis unfolding True by simp
    next
      case False
      then have "Min ?R \<in> ?R" using finR by (intro Min_in)
      then have less: "Min ?R < c" using Rlt by blast
      from finR False have "Min (insert c ?R) = min c (Min ?R)" by (rule Min_insert)
      also have "\<dots> = Min ?R" using less by (intro min_absorb2 less_imp_le)
      finally show ?thesis by (simp only: False if_True not_False_eq_True)
    qed
    moreover have "threshold_loop (e # r) acc ign thr = threshold_loop r (acc + int n) ign c"
      using lt by (simp add: e Let_def)
    moreover have "\<exists>c \<in> fst ` set (e # r). acc + int (above (e # r) c) \<le> ign"
      using S by blast
    ultimately show ?thesis using IH [of c] S by (simp del: threshold_loop.simps)
  next
    case eq
    then have R: "?R = {}" using Rempty by simp
    have S: "?S = {c}" unfolding S_eq R using eq by simp
    then have "\<exists>c \<in> fst ` set (e # r). acc + int (above (e # r) c) \<le> ign" by blast
    moreover have "threshold_loop (e # r) acc ign thr = c" using eq by (simp add: e Let_def)
    ultimately show ?thesis using S by (simp del: threshold_loop.simps)
  next
    case gt
    then have R: "?R = {}" using Rempty by simp
    have S: "?S = {}" unfolding S_eq R using gt by simp
    then have "\<not> (\<exists>c \<in> fst ` set (e # r). acc + int (above (e # r) c) \<le> ign)" by blast
    moreover have "threshold_loop (e # r) acc ign thr = thr" using gt by (simp add: e Let_def)
    ultimately show ?thesis by (simp del: threshold_loop.simps)
  qed
qed

lemma ex_built_eq:
  "ex_built =
     \<lparr> param = ex_params, freqThreshold = UINT64_MAX, frequentSeeds = [], isInitialized = False,
       hashFreq = [(5, 3), (7, 1), (9, 1)], metadata = [], sequencesByFileInfo = [],
       minmerPosLookupIndex =
         [(5, ex_points5),
          (7, [\<lparr>pos = 3, ip_hash = 7, ip_seqId = 0, ip_side = OPEN\<rparr>,
               \<lparr>pos = 9, ip_hash = 7, ip_seqId = 0, ip_side = CLOSE\<rparr>]),
          (9, [\<lparr>pos = 12, ip_hash = 9, ip_seqId = 1, ip_side = OPEN\<rparr>,
               \<lparr>pos = 15, ip_hash = 9, ip_seqId = 1, ip_side = CLOSE\<rparr>])],
       minmerIndex = [ex_mA, ex_mB, ex_mD, ex_mC, ex_mE], minmerFreqHistogram = [],
       idManager = [] \<rparr>"
  by (simp add: ex_built_def ex_outputs_def ex_points5_def buildHandleThreadOutput_def
      handleMinmer_def Let_def map_at_def counter_incr_def new_Sketch_def
      ex_mA_def ex_mB_def ex_mC_def ex_mD_def ex_mE_def)

lemma ex_minmerToIgnore: "minmerToIgnore ex_percent_of_total ex_params 3 = 2"
  by (simp add: minmerToIgnore_def ex_percent_of_total_def ex_params_def)

lemma ex_ignore_bound: "ignore_bound ex_percent_of_total ex_built = 2"
  by (simp add: ignore_bound_def ex_built_eq ex_minmerToIgnore)

lemma ex_hist_threshold: "freqThreshold ex_hist = 4"
  by (simp add: ex_hist_def computeFreqHist_def ex_built_eq Let_def ex_points5_def
     ex_minmerToIgnore)

lemma ex_hist_histogram: "minmerFreqHistogram ex_hist = [(2, 2), (4, 1)]"
  by (simp add: ex_hist_def computeFreqHist_def ex_built_eq Let_def ex_points5_def)

text \<open>
  C1, as amended. On a sketch whose histogram is still empty and whose threshold still has
  its sentinel value, as \<^verbatim>\<open>initialize\<close> calls it, \<^verbatim>\<open>computeFreqHist\<close> sets the threshold
  to the smallest interval-point count \<open>c\<close> occurring in the index such that the number of
  hashes with at least \<open>c\<close> interval points is at most \<^verbatim>\<open>minmerToIgnore\<close>, the integer that
  the code gets for total unique hashes times the percentage over 100, whatever the
  floating-point arithmetic makes it. When no count satisfies this (the hashes with the
  highest count already outnumber the bound, or the index is empty) the threshold keeps its
  sentinel.
\<close>

theorem freq_threshold_amended:
  assumes "minmerFreqHistogram sk = []" and "freqThreshold sk = UINT64_MAX"
  shows "freqThreshold (computeFreqHist fp sk) =
           (if \<exists>c \<in> point_counts sk. int (hashes_with_at_least sk c) \<le> ignore_bound fp sk
            then Min {c \<in> point_counts sk. int (hashes_with_at_least sk c) \<le> ignore_bound fp sk}
            else UINT64_MAX)"
proof (cases "minmerPosLookupIndex sk = []")
  case True
  then show ?thesis using assms by (simp add: computeFreqHist_def point_counts_def)
next
  case False
  let ?m = "minmerPosLookupIndex sk"
  let ?h = "fold (\<lambda>e. hist_incr (length (snd e))) ?m []"
  have sorted: "sorted_wrt (>) (map fst (rev ?h))"
    using sorted_fold_hist [of "[]" ?m] by (simp add: sorted_wrt_rev flip: rev_map)
  have pos: "\<forall>e \<in> set (rev ?h). 0 < snd e"
    using positive_fold_hist [of "[]" ?m] by simp
  have keys: "fst ` set (rev ?h) = point_counts sk"
    by (simp add: keys_fold_hist point_counts_def)
  have ab: "above (rev ?h) c = hashes_with_at_least sk c" for c
    by (simp add: above_rev above_fold_hist hashes_with_at_least_def)
  have "freqThreshold (computeFreqHist fp sk)
          = threshold_loop (rev ?h) 0 (ignore_bound fp sk) UINT64_MAX"
    using False assms by (simp add: computeFreqHist_def Let_def ignore_bound_def)
  also have "\<dots> = (if \<exists>c \<in> fst ` set (rev ?h). 0 + int (above (rev ?h) c) \<le> ignore_bound fp sk
            then Min {c \<in> fst ` set (rev ?h). 0 + int (above (rev ?h) c) \<le> ignore_bound fp sk}
            else UINT64_MAX)"
    using sorted pos by (rule threshold_loop_char)
  finally show ?thesis by (simp only: keys ab add_0)
qed

theorem freq_threshold_amended_witness:
  "minmerFreqHistogram ex_built = [] \<and> freqThreshold ex_built = UINT64_MAX
   \<and> ignore_bound ex_percent_of_total ex_built = 2
   \<and> point_counts ex_built = {2, 4}
   \<and> hashes_with_at_least ex_built 4 = 1 \<and> hashes_with_at_least ex_built 2 = 3
   \<and> freqThreshold (computeFreqHist ex_percent_of_total ex_built) = 4"
proof -
  have h1: "minmerFreqHistogram ex_built = []" and h2: "freqThreshold ex_built = UINT64_MAX"
    by (simp_all add: ex_built_eq)
  have pc: "point_counts ex_built = {2, 4}"
    by (auto simp: point_counts_def ex_built_eq ex_points5_def)
  have n4: "hashes_with_at_least ex_built 4 = 1" and n2: "hashes_with_at_least ex_built 2 = 3"
    by (simp_all add: hashes_with_at_least_def ex_built_eq ex_points5_def)
  have S: "{c \<in> point_counts ex_built. int (hashes_with_at_least ex_built c) \<le> ignore_bound ex_percent_of_total ex_built} = {4}"
    using n4 n2 by (auto simp: pc ex_ignore_bound)
  have "freqThreshold (computeFreqHist ex_percent_of_total ex_built) = 4"
    using freq_threshold_amended [OF h1 h2] S n4 by (auto simp: pc ex_ignore_bound)
  with h1 h2 pc n4 n2 show ?thesis by (simp add: ex_ignore_bound)
qed

text \<open>
  C1 as stated fails on the example: with three hashes and 70 percent the bound is 2; one
  hash has four interval points and two have two. The threshold becomes 4 although the hashes
  counted down to 4 number 1, below the bound; the sum first reaches the bound at count 2.
\<close>

theorem freq_threshold_counterexample:
  "freqThreshold (computeFreqHist ex_percent_of_total ex_built) = 4
   \<and> freqThreshold (computeFreqHist ex_percent_of_total ex_built) \<noteq> UINT64_MAX
   \<and> \<not> ignore_bound ex_percent_of_total ex_built
         \<le> int (hashes_with_at_least ex_built (freqThreshold (computeFreqHist ex_percent_of_total ex_built)))
   \<and> 2 \<in> point_counts ex_built
   \<and> ignore_bound ex_percent_of_total ex_built \<le> int (hashes_with_at_least ex_built 2)"
proof -
  have "freqThreshold (computeFreqHist ex_percent_of_total ex_built) = 4"
    using ex_hist_threshold by (simp add: ex_hist_def)
  moreover have "hashes_with_at_least ex_built 4 = 1" and "hashes_with_at_least ex_built 2 = 3"
    by (simp_all add: hashes_with_at_least_def ex_built_eq ex_points5_def)
  moreover have "2 \<in> point_counts ex_built"
    by (simp add: point_counts_def ex_built_eq)
  ultimately show ?thesis by (simp add: ex_ignore_bound UINT64_MAX_def)
qed

lemma set_set_insert: "set (set_insert k s) = insert k (set s)"
  by (auto simp: set_insert_def)

lemma set_fold_frequent:
  "set (fold (\<lambda>e s. if length (snd e) \<ge> t then set_insert (fst e) s else s) m s0)
     = set s0 \<union> {H. \<exists>l. (H, l) \<in> set m \<and> t \<le> length l}"
proof (induction m arbitrary: s0)
  case Nil
  then show ?case by simp
next
  case (Cons e m)
  obtain H l where e: "e = (H, l)" by (cases e)
  show ?case unfolding e by (auto simp: Cons.IH set_set_insert)
qed

text \<open>
  C2, as amended. After \<^verbatim>\<open>computeFreqSeedSet\<close> and \<^verbatim>\<open>dropFreqSeedSet\<close> on a sketch with no
  frequent seeds yet, no remaining minmer has a frequent hash, and a hash is frequent exactly
  when it is a key of the position map whose number of interval points (not half of it) is
  at least the threshold.
\<close>

theorem frequency_pruning_amended:
  assumes "frequentSeeds sk = []"
  shows "(\<forall>m \<in> set (minmerIndex (dropFreqSeedSet (computeFreqSeedSet sk))).
            hash m \<notin> set (frequentSeeds (dropFreqSeedSet (computeFreqSeedSet sk))))
       \<and> (\<forall>H. H \<in> set (frequentSeeds (dropFreqSeedSet (computeFreqSeedSet sk)))
              \<longleftrightarrow> (\<exists>l. (H, l) \<in> set (minmerPosLookupIndex sk) \<and> freqThreshold sk \<le> length l))"
proof (intro conjI ballI allI)
  fix m
  assume "m \<in> set (minmerIndex (dropFreqSeedSet (computeFreqSeedSet sk)))"
  then show "hash m \<notin> set (frequentSeeds (dropFreqSeedSet (computeFreqSeedSet sk)))"
    by (simp add: dropFreqSeedSet_def isFreqSeed_def)
next
  fix H
  have "frequentSeeds (dropFreqSeedSet (computeFreqSeedSet sk))
          = fold (\<lambda>e s. if length (snd e) \<ge> freqThreshold sk then set_insert (fst e) s else s)
              (minmerPosLookupIndex sk) []"
    using assms by (simp add: dropFreqSeedSet_def computeFreqSeedSet_def)
  then show "H \<in> set (frequentSeeds (dropFreqSeedSet (computeFreqSeedSet sk)))
              \<longleftrightarrow> (\<exists>l. (H, l) \<in> set (minmerPosLookupIndex sk) \<and> freqThreshold sk \<le> length l)"
    by (simp add: set_fold_frequent)
qed

lemma ex_hist_eq:
  "ex_hist = ex_built\<lparr>minmerFreqHistogram := [(2, 2), (4, 1)], freqThreshold := 4\<rparr>"
  by (simp add: ex_hist_def computeFreqHist_def ex_built_eq Let_def ex_points5_def
     ex_minmerToIgnore)

lemma ex_pruned_seeds: "frequentSeeds ex_pruned = [5]"
  by (simp add: ex_pruned_def dropFreqSeedSet_def computeFreqSeedSet_def ex_hist_eq ex_built_eq
     ex_points5_def set_insert_def)

lemma ex_pruned_minmers: "minmerIndex ex_pruned = [ex_mD, ex_mE]"
  by (simp add: ex_pruned_def dropFreqSeedSet_def computeFreqSeedSet_def ex_hist_eq ex_built_eq
     ex_points5_def set_insert_def isFreqSeed_def ex_mA_def ex_mB_def ex_mC_def ex_mD_def ex_mE_def)

theorem frequency_pruning_amended_witness:
  "frequentSeeds ex_hist = []
   \<and> minmerIndex (dropFreqSeedSet (computeFreqSeedSet ex_hist)) = [ex_mD, ex_mE]
   \<and> hash ex_mD \<notin> set (frequentSeeds (dropFreqSeedSet (computeFreqSeedSet ex_hist)))
   \<and> 5 \<in> set (frequentSeeds (dropFreqSeedSet (computeFreqSeedSet ex_hist)))
   \<and> (5, ex_points5) \<in> set (minmerPosLookupIndex ex_hist)
   \<and> freqThreshold ex_hist \<le> length ex_points5"
proof -
  have h: "frequentSeeds ex_hist = []" by (simp add: ex_hist_eq ex_built_eq)
  have m: "minmerIndex (dropFreqSeedSet (computeFreqSeedSet ex_hist)) = [ex_mD, ex_mE]"
    using ex_pruned_minmers by (simp add: ex_pruned_def)
  have p: "(5, ex_points5) \<in> set (minmerPosLookupIndex ex_hist)"
    and t: "freqThreshold ex_hist \<le> length ex_points5"
    by (simp_all add: ex_hist_eq ex_built_eq ex_points5_def)
  note fp = frequency_pruning_amended [OF h]
  from fp have "\<forall>m \<in> set (minmerIndex (dropFreqSeedSet (computeFreqSeedSet ex_hist))).
            hash m \<notin> set (frequentSeeds (dropFreqSeedSet (computeFreqSeedSet ex_hist)))"
    by (rule conjunct1)
  then have "hash ex_mD \<notin> set (frequentSeeds (dropFreqSeedSet (computeFreqSeedSet ex_hist)))"
    unfolding m by simp
  moreover from fp p t have "5 \<in> set (frequentSeeds (dropFreqSeedSet (computeFreqSeedSet ex_hist)))"
    by blast
  ultimately show ?thesis using h m p t by simp
qed

text \<open>
  C2 as stated fails on the example: hash 5 is frequent with four interval points and
  threshold 4, and half of four is below the threshold.
\<close>

theorem frequency_pruning_counterexample:
  "5 \<in> set (frequentSeeds ex_pruned)
   \<and> map_at (minmerPosLookupIndex ex_pruned) 5 = ex_points5
   \<and> freqThreshold ex_pruned = 4
   \<and> \<not> freqThreshold ex_pruned \<le> length (map_at (minmerPosLookupIndex ex_pruned) 5) div 2"
proof -
  have "minmerPosLookupIndex ex_pruned = minmerPosLookupIndex ex_built"
    and "freqThreshold ex_pruned = 4"
    by (simp_all add: ex_pruned_def dropFreqSeedSet_def computeFreqSeedSet_def ex_hist_eq)
  then show ?thesis
    by (simp add: ex_pruned_seeds ex_built_eq map_at_def ex_points5_def)
qed

subsection \<open>Initialisation, parameters and the index file\<close>

lemma initialize_load_branch_empty:
  assumes "indexFilename (param sk) \<noteq> []" and "fs (indexFilename (param sk)) \<noteq> None"
    and "\<not> overwrite_index (param sk)" and "minmerIndex sk = []"
  shows "initialize env targets fs sk = (fs, Exit 1 empty_sketch_diag)"
  using assms by (auto simp: initialize_def build_def obind_def)

text \<open>
  C3. When the index file is named, exists and is not to be overwritten, the constructor's
  call of \<^verbatim>\<open>initialize\<close> takes the loading branch; there \<^verbatim>\<open>build(false)\<close> runs on the
  still empty minmer index, its final check fires, and the process exits with code 1 with
  the empty-sketch diagnostic, whatever the file holds: \<^verbatim>\<open>readIndex\<close> is not reached and no
  sketch is returned.
\<close>

theorem load_branch_exits:
  assumes "indexFilename p \<noteq> []" and "fs (indexFilename p) \<noteq> None" and "\<not> overwrite_index p"
  shows "build env False [] (new_Sketch p md sbf idMgr) = Exit 1 empty_sketch_diag
       \<and> Sketch_constructor env p md sbf idMgr targets fs = (fs, Exit 1 empty_sketch_diag)"
proof -
  have empty: "minmerIndex (new_Sketch p md sbf idMgr) = []"
    and par: "param (new_Sketch p md sbf idMgr) = p"
    by (simp_all add: new_Sketch_def)
  from empty have "build env False [] (new_Sketch p md sbf idMgr) = Exit 1 empty_sketch_diag"
    by (simp add: build_def)
  moreover have "Sketch_constructor env p md sbf idMgr targets fs = (fs, Exit 1 empty_sketch_diag)"
    unfolding Sketch_constructor_def
    using assms empty by (intro initialize_load_branch_empty) (simp_all add: par)
  ultimately show ?thesis by simp
qed

lemma ex_fs_dom: "ex_fs ''ref.idx'' \<noteq> None"
  by (simp add: ex_fs_def writeIndex_def ex_pruned_def dropFreqSeedSet_def computeFreqSeedSet_def ex_hist_eq ex_built_eq ex_params_def)

lemma diag_shows: "index_params_diag_ok p a b c (param_mismatch_diag p a b c)"
  by (simp add: index_params_diag_ok_def param_mismatch_diag_def suffix_def)

text \<open>
  C7. \<^verbatim>\<open>readParameters\<close> on a file that starts with the three stored parameters returns
  normally when all three equal the current ones; otherwise it exits with code 1, and its
  diagnostic shows every parameter by name, with the stored and with the current value, so
  also the one that disagrees.
\<close>

theorem readParameters_check:
  "readParameters (sk, U64 a # U64 b # U64 c # rest) =
     (if segLength (param sk) = a \<and> sketchSize (param sk) = b \<and> kmerSize (param sk) = c
      then Normal (sk, rest)
      else Exit 1 (param_mismatch_diag (param sk) a b c))
   \<and> index_params_diag_ok (param sk) a b c (param_mismatch_diag (param sk) a b c)"
  by (simp add: readParameters_def obind_def diag_shows)

lemma read_minmers_written:
  "read_minmers (length ms) (map MinmerRec ms @ rest) = Normal (ms, rest)"
  by (induction ms) (simp_all add: obind_def)

lemma read_points_written:
  "read_points (length ps) (map PointRec ps @ rest) = Normal (ps, rest)"
  by (induction ps) (simp_all add: obind_def)

lemma fold_write_entries:
  "fold (\<lambda>(hash, ipVec) out. out @ [U64 (unat hash), U64 (length ipVec)] @ map PointRec ipVec) m out
     = out @ concat (map enc_entry m)"
  by (induction m arbitrary: out) (auto simp: enc_entry_def)

lemma fold_write_keys:
  "fold (\<lambda>kmerHash out. out @ [U64 (unat kmerHash)]) s out = out @ map (\<lambda>h. U64 (unat h)) s"
  by (induction s arbitrary: out) auto

lemma read_pos_entries_written:
  "read_pos_entries (length m) m0
     (concat (map enc_entry m) @ rest)
   = Normal (fold (\<lambda>(hash, ipVec). map_set hash ipVec) m m0, rest)"
proof (induction m arbitrary: m0)
  case Nil
  then show ?case by simp
next
  case (Cons e m)
  obtain h ps where e: "e = (h, ps)" by (cases e)
  have "enc_entry (h, ps) = U64 (unat h) # U64 (length ps) # map PointRec ps"
    by (simp add: enc_entry_def)
  then show ?case
    by (simp add: e obind_def read_points_written Cons.IH)
qed

lemma read_freq_keys_written:
  "read_freq_keys (length s) s0 (map (\<lambda>h. U64 (unat h)) s @ rest)
   = Normal (fold set_insert s s0, rest)"
  by (induction s arbitrary: s0) (simp_all add: obind_def)

lemma read_freq_keys_written_end:
  "read_freq_keys (length s) s0 (map (\<lambda>h. U64 (unat h)) s) = Normal (fold set_insert s s0, [])"
  using read_freq_keys_written [of s s0 "[]"] by simp

lemma map_set_append_new: "k \<notin> fst ` set m \<Longrightarrow> map_set k v m = m @ [(k, v)]"
  by (induction m) auto

lemma fold_map_set_distinct:
  "distinct (map fst (m0 @ m))
   \<Longrightarrow> fold (\<lambda>(hash, ipVec). map_set hash ipVec) m m0 = m0 @ m"
proof (induction m arbitrary: m0)
  case Nil
  then show ?case by simp
next
  case (Cons e m)
  obtain h ps where e: "e = (h, ps)" by (cases e)
  from Cons.prems have "h \<notin> fst ` set m0" by (auto simp: e)
  then have "map_set h ps m0 = m0 @ [(h, ps)]" by (rule map_set_append_new)
  moreover from Cons.prems have "distinct (map fst ((m0 @ [(h, ps)]) @ m))" by (simp add: e)
  ultimately show ?case using Cons.IH [of "m0 @ [(h, ps)]"] by (simp add: e)
qed

lemma fold_set_insert_distinct:
  "distinct (s0 @ s) \<Longrightarrow> fold set_insert s s0 = s0 @ s"
proof (induction s arbitrary: s0)
  case Nil
  then show ?case by simp
next
  case (Cons h s)
  from Cons.prems have "set_insert h s0 = s0 @ [h]" by (simp add: set_insert_def)
  moreover from Cons.prems have "distinct ((s0 @ [h]) @ s)" by simp
  ultimately show ?case using Cons.IH [of "s0 @ [h]"] by simp
qed

lemma written_index:
  "writeFreqKmersBinary sk (writePosListBinary sk (writeSketchBinary sk (writeParameters sk [])))
   = [U64 (segLength (param sk)), U64 (sketchSize (param sk)), U64 (kmerSize (param sk))]
     @ U64 (length (minmerIndex sk)) # map MinmerRec (minmerIndex sk)
     @ U64 (length (minmerPosLookupIndex sk))
       # concat (map enc_entry
                  (minmerPosLookupIndex sk))
     @ U64 (length (frequentSeeds sk)) # map (\<lambda>h. U64 (unat h)) (frequentSeeds sk)"
  unfolding writeFreqKmersBinary_def writePosListBinary_def writeSketchBinary_def
    writeParameters_def fold_write_entries fold_write_keys
  by simp

text \<open>
  C6. An index written by \<^verbatim>\<open>writeIndex\<close> and read by \<^verbatim>\<open>readIndex\<close> into a sketch with an
  empty position map and no frequent seeds, under the same file name: with equal segment
  length, sketch size and k-mer size the read returns the sketch with the minmers, the
  positions and the frequent seeds of the written index; with a differing parameter it exits
  with code 1 and the diagnostic of \<^verbatim>\<open>readParameters\<close>.
\<close>

theorem index_round_trip:
  assumes "wf_index I"
    and "indexFilename (param S0) = indexFilename (param I)"
    and "minmerPosLookupIndex S0 = []" and "frequentSeeds S0 = []"
  shows "(same_index_params (param S0) (param I) \<longrightarrow>
            readIndex S0 (writeIndex I fs)
              = Normal (S0\<lparr>minmerIndex := minmerIndex I,
                            minmerPosLookupIndex := minmerPosLookupIndex I,
                            frequentSeeds := frequentSeeds I\<rparr>))
       \<and> (\<not> same_index_params (param S0) (param I) \<longrightarrow>
            readIndex S0 (writeIndex I fs)
              = Exit 1 (param_mismatch_diag (param S0) (segLength (param I))
                          (sketchSize (param I)) (kmerSize (param I))))"
proof (intro conjI impI)
  assume same: "same_index_params (param S0) (param I)"
  from assms(1) have d1: "distinct (map fst ([] @ minmerPosLookupIndex I))"
    and d2: "distinct ([] @ frequentSeeds I)"
    by (simp_all add: wf_index_def)
  show "readIndex S0 (writeIndex I fs)
              = Normal (S0\<lparr>minmerIndex := minmerIndex I,
                            minmerPosLookupIndex := minmerPosLookupIndex I,
                            frequentSeeds := frequentSeeds I\<rparr>)"
    using same assms(2-4) 
    by (simp add: readIndex_def writeIndex_def written_index same_index_params_def
        readParameters_def obind_def readSketchBinary_def read_minmers_written
        readPosListBinary_def read_pos_entries_written readFreqKmersBinary_def
        read_freq_keys_written_end fold_map_set_distinct [OF d1] fold_set_insert_distinct [OF d2])
next
  assume "\<not> same_index_params (param S0) (param I)"
  then show "readIndex S0 (writeIndex I fs)
              = Exit 1 (param_mismatch_diag (param S0) (segLength (param I))
                          (sketchSize (param I)) (kmerSize (param I)))"
    using assms(2) 
    by (auto simp: readIndex_def writeIndex_def written_index same_index_params_def
        readParameters_def obind_def)
qed

lemma keys_map_set: "fst ` set (map_set k v m) = insert k (fst ` set m)"
proof (induction m)
  case (Cons e m)
  obtain k' v' where e: "e = (k', v')" by (cases e)
  from Cons show ?case unfolding e by (cases "k' = k") auto
qed simp

lemma distinct_map_set: "distinct (map fst m) \<Longrightarrow> distinct (map fst (map_set k v m))"
  by (induction m) (auto simp: keys_map_set)

lemma distinct_set_insert: "distinct s \<Longrightarrow> distinct (set_insert k s)"
  by (simp add: set_insert_def)

lemma wf_handleMinmer: "wf_index sk \<Longrightarrow> wf_index (handleMinmer mi sk)"
  by (simp add: wf_index_def handleMinmer_def Let_def distinct_map_set)

lemma wf_fold_handleMinmer: "wf_index sk \<Longrightarrow> wf_index (fold handleMinmer ms sk)"
  by (induction ms arbitrary: sk) (simp_all add: wf_handleMinmer)

lemma wf_buildHandleThreadOutput: "wf_index sk \<Longrightarrow> wf_index (buildHandleThreadOutput out sk)"
  using wf_fold_handleMinmer [of sk out]
  by (simp add: buildHandleThreadOutput_def Let_def wf_index_def)

lemma wf_build_callback: "wf_index sk \<Longrightarrow> wf_index (build_callback env e sk)"
proof -
  assume wf: "wf_index sk"
  obtain n s where e: "e = (n, s)" by (cases e)
  obtain i idm where a: "addSequence n (idManager sk) = (i, idm)" by (cases "addSequence n (idManager sk)")
  from wf have "wf_index (sk\<lparr>idManager := idm\<rparr>)" by (simp add: wf_index_def)
  then have "wf_index (buildHandleThreadOutput (buildHelper env (param sk) s i) (sk\<lparr>idManager := idm\<rparr>))"
    by (rule wf_buildHandleThreadOutput)
  then show ?thesis using wf by (simp add: build_callback_def e a Let_def wf_index_def)
qed

lemma wf_fold_build_callback: "wf_index sk \<Longrightarrow> wf_index (fold (build_callback env) es sk)"
  by (induction es arbitrary: sk) (simp_all add: wf_build_callback)

lemma wf_build_files:
  "wf_index sk \<Longrightarrow>
   wf_index (fold (\<lambda>fileName. fold (build_callback env) (f fileName)) files sk)"
  by (induction files arbitrary: sk) (simp_all add: wf_fold_build_callback)

lemma wf_build: "wf_index sk \<Longrightarrow> build env b targets sk = Normal sk1 \<Longrightarrow> wf_index sk1"
  using wf_build_files [of sk env "\<lambda>fileName. for_each_seq_in_file env fileName targets"
      "refSequences (param sk)"]
  by (auto simp: build_def Let_def wf_index_def split: if_splits)

lemma distinct_fold_frequent:
  "distinct s0 \<Longrightarrow>
   distinct (fold (\<lambda>e s. if length (snd e) \<ge> t then set_insert (fst e) s else s) m s0)"
  by (induction m arbitrary: s0) (simp_all add: distinct_set_insert)

lemma wf_prune:
  "wf_index sk \<Longrightarrow> wf_index (dropFreqSeedSet (computeFreqSeedSet (computeFreqHist fp sk)))"
  by (simp add: wf_index_def dropFreqSeedSet_def computeFreqSeedSet_def computeFreqHist_def
      Let_def distinct_fold_frequent)

text \<open>Every index that \<^verbatim>\<open>initialize\<close> builds, prunes and returns is well formed.\<close>

lemma wf_initialize:
  assumes "wf_index sk" and "initialize env targets fs sk = (fs1, Normal I)"
    and "indexFilename (param sk) = [] \<or> fs (indexFilename (param sk)) = None
         \<or> overwrite_index (param sk)"
  shows "wf_index I"
proof -
  from assms(2,3) obtain sk1 where b: "build env True targets sk = Normal sk1"
    and I: "I = (dropFreqSeedSet (computeFreqSeedSet (computeFreqHist (percent_of_total env) sk1)))
                  \<lparr>hashFreq := [], isInitialized := True\<rparr>"
    by (auto simp: initialize_def Let_def split: outcome.splits if_splits)
  from assms(1) b have "wf_index sk1" by (rule wf_build)
  then have "wf_index (dropFreqSeedSet (computeFreqSeedSet (computeFreqHist (percent_of_total env) sk1)))"
    by (rule wf_prune)
  then show ?thesis by (simp add: I wf_index_def)
qed

lemma wf_new_Sketch: "wf_index (new_Sketch p md sbf idm)"
  by (simp add: wf_index_def new_Sketch_def)

lemma ex_pruned_eq:
  "ex_pruned = ex_built\<lparr>minmerFreqHistogram := [(2, 2), (4, 1)], freqThreshold := 4,
                         frequentSeeds := [5], minmerIndex := [ex_mD, ex_mE]\<rparr>"
  by (simp add: ex_pruned_def dropFreqSeedSet_def computeFreqSeedSet_def ex_hist_eq ex_built_eq
     ex_points5_def set_insert_def isFreqSeed_def ex_mA_def ex_mB_def ex_mC_def ex_mD_def ex_mE_def)

lemma ex_pruned_wf: "wf_index ex_pruned"
  by (simp add: wf_index_def ex_pruned_eq ex_built_eq)

theorem index_round_trip_witness:
  "wf_index ex_pruned
   \<and> indexFilename (param (new_Sketch ex_params [] [] [])) = indexFilename (param ex_pruned)
   \<and> minmerPosLookupIndex (new_Sketch ex_params [] [] []) = []
   \<and> frequentSeeds (new_Sketch ex_params [] [] []) = []
   \<and> same_index_params (param (new_Sketch ex_params [] [] [])) (param ex_pruned)
   \<and> readIndex (new_Sketch ex_params [] [] []) (writeIndex ex_pruned Map.empty)
       = Normal ((new_Sketch ex_params [] [] [])
                   \<lparr>minmerIndex := [ex_mD, ex_mE],
                    minmerPosLookupIndex := minmerPosLookupIndex ex_built,
                    frequentSeeds := [5]\<rparr>)
   \<and> \<not> same_index_params (param (new_Sketch (ex_params\<lparr>kmerSize := 17\<rparr>) [] [] [])) (param ex_pruned)
   \<and> readIndex (new_Sketch (ex_params\<lparr>kmerSize := 17\<rparr>) [] [] []) (writeIndex ex_pruned Map.empty)
       = Exit 1 (param_mismatch_diag (ex_params\<lparr>kmerSize := 17\<rparr>) 500 7 19)"
proof -
  let ?S0 = "new_Sketch ex_params [] [] []"
  let ?S1 = "new_Sketch (ex_params\<lparr>kmerSize := 17\<rparr>) [] [] []"
  have f0: "indexFilename (param ?S0) = indexFilename (param ex_pruned)"
    and f1: "indexFilename (param ?S1) = indexFilename (param ex_pruned)"
    and e0: "minmerPosLookupIndex ?S0 = []" "frequentSeeds ?S0 = []"
    and e1: "minmerPosLookupIndex ?S1 = []" "frequentSeeds ?S1 = []"
    and same: "same_index_params (param ?S0) (param ex_pruned)"
    and diff: "\<not> same_index_params (param ?S1) (param ex_pruned)"
    by (simp_all add: new_Sketch_def ex_pruned_eq ex_built_eq same_index_params_def ex_params_def)
  from index_round_trip [OF ex_pruned_wf f0 e0, of Map.empty] same
  have r0: "readIndex ?S0 (writeIndex ex_pruned Map.empty)
       = Normal (?S0\<lparr>minmerIndex := minmerIndex ex_pruned,
                    minmerPosLookupIndex := minmerPosLookupIndex ex_pruned,
                    frequentSeeds := frequentSeeds ex_pruned\<rparr>)"
    by blast
  from index_round_trip [OF ex_pruned_wf f1 e1, of Map.empty] diff
  have r1: "readIndex ?S1 (writeIndex ex_pruned Map.empty)
       = Exit 1 (param_mismatch_diag (param ?S1) (segLength (param ex_pruned))
                          (sketchSize (param ex_pruned)) (kmerSize (param ex_pruned)))"
    by blast
  have r0': "readIndex ?S0 (writeIndex ex_pruned Map.empty)
       = Normal (?S0\<lparr>minmerIndex := [ex_mD, ex_mE],
                    minmerPosLookupIndex := minmerPosLookupIndex ex_built,
                    frequentSeeds := [5]\<rparr>)"
    unfolding r0 by (simp add: ex_pruned_eq)
  have r1': "readIndex ?S1 (writeIndex ex_pruned Map.empty)
       = Exit 1 (param_mismatch_diag (ex_params\<lparr>kmerSize := 17\<rparr>) 500 7 19)"
    unfolding r1 by (simp add: ex_pruned_eq ex_built_eq new_Sketch_def ex_params_def)
  from ex_pruned_wf f0 e0 same diff r0' r1' show ?thesis by blast
qed

theorem readParameters_check_witness:
  "readParameters (new_Sketch (ex_params\<lparr>kmerSize := 17\<rparr>) [] [] [], [U64 500, U64 7, U64 19])
     = Exit 1 (param_mismatch_diag (ex_params\<lparr>kmerSize := 17\<rparr>) 500 7 19)
   \<and> shown ''kmerSize='' 19 (param_mismatch_diag (ex_params\<lparr>kmerSize := 17\<rparr>) 500 7 19)
   \<and> shown ''kmerSize='' 17 (param_mismatch_diag (ex_params\<lparr>kmerSize := 17\<rparr>) 500 7 19)
   \<and> readParameters (new_Sketch ex_params [] [] [], [U64 500, U64 7, U64 19])
     = Normal (new_Sketch ex_params [] [] [], [])"
proof -
  let ?S1 = "new_Sketch (ex_params\<lparr>kmerSize := 17\<rparr>) [] [] []"
  let ?S0 = "new_Sketch ex_params [] [] []"
  have p1: "param ?S1 = ex_params\<lparr>kmerSize := 17\<rparr>" and p0: "param ?S0 = ex_params"
    by (simp_all add: new_Sketch_def)
  from readParameters_check [of ?S1 500 7 19 "[]"]
  have a: "readParameters (?S1, [U64 500, U64 7, U64 19])
     = Exit 1 (param_mismatch_diag (ex_params\<lparr>kmerSize := 17\<rparr>) 500 7 19)"
    and b: "index_params_diag_ok (ex_params\<lparr>kmerSize := 17\<rparr>) 500 7 19
              (param_mismatch_diag (ex_params\<lparr>kmerSize := 17\<rparr>) 500 7 19)"
    by (simp_all add: new_Sketch_def ex_params_def)
  from readParameters_check [of ?S0 500 7 19 "[]"]
  have c: "readParameters (?S0, [U64 500, U64 7, U64 19]) = Normal (?S0, [])"
    by (simp add: new_Sketch_def ex_params_def)
  from b have "shown ''kmerSize='' 19 (param_mismatch_diag (ex_params\<lparr>kmerSize := 17\<rparr>) 500 7 19)"
    and "shown ''kmerSize='' 17 (param_mismatch_diag (ex_params\<lparr>kmerSize := 17\<rparr>) 500 7 19)"
    by (simp_all add: index_params_diag_ok_def ex_params_def)
  with a c show ?thesis by blast
qed

theorem load_branch_exits_witness:
  "indexFilename ex_params \<noteq> [] \<and> ex_fs (indexFilename ex_params) \<noteq> None
   \<and> \<not> overwrite_index ex_params
   \<and> Sketch_constructor ex_env ex_params [] [] [] [] ex_fs = (ex_fs, Exit 1 empty_sketch_diag)"
proof -
  have h1: "indexFilename ex_params \<noteq> []" and h3: "\<not> overwrite_index ex_params"
    by (simp_all add: ex_params_def)
  have h2: "ex_fs (indexFilename ex_params) \<noteq> None"
    by (simp add: ex_fs_def writeIndex_def ex_pruned_eq ex_built_eq)
  from load_branch_exits [of ex_params ex_fs ex_env "[]" "[]" "[]" "[]"] h1 h2 h3
  show ?thesis by blast
qed

section \<open>Verification of the alignment stage\<close>

subsection \<open>Parsing\<close>

lemma ex_short_tokens:
  "tokenize ex_short_line [] =
     [''q0'', ''10000'', ''0'', ''100'', ''+'', ''r0'', ''2000'', ''50'', ''150'']"
  by (simp add: ex_short_line_def isspace_def)

lemma ex_full_tokens:
  "tokenize ex_full_line [] =
     [''q0'', ''10000'', ''0'', ''100'', ''+'', ''r0'', ''2000'', ''50'', ''150'', ''60'', ''100'',
      ''80'', ''id:f:95.0'']"
  by (simp add: ex_full_line_def isspace_def)

lemma stoi_examples:
  "stoi ''0'' = Inr 0" "stoi ''100'' = Inr 100" "stoi ''50'' = Inr 50" "stoi ''150'' = Inr 150"
  "stoi ''-7'' = Inr (-7)" "stoi ''abc'' = Inl InvalidArgument" "stoi ''12abc'' = Inr 12"
  "stoi ''2147483648'' = Inl OutOfRange"
  by (simp_all add: stoi_def isspace_def isdigit_def digit_value_def Let_def)

lemma parse_few_tokens:
  "length (tokenize line []) < 9 \<Longrightarrow> parseMashmapRow env line rank = Inl AssertionFailed"
  by (simp add: parseMashmapRow_def Let_def)

lemma parse_nine_to_twelve_tokens:
  "9 \<le> length (tokenize line []) \<Longrightarrow> length (tokenize line []) \<le> 12
   \<Longrightarrow> parseMashmapRow env line rank = Inl (OutOfBoundsRead 12)"
  by (simp add: parseMashmapRow_def Let_def)

lemma parse_thirteen_tokens:
  assumes "tokenize line [] = tokens" and "13 \<le> length tokens"
    and "CommonFunc_split env (tokens ! 12) CHR '':'' = mm_id_vec" and "mm_id_vec \<noteq> []"
    and "stoi (tokens ! 2) = Inr qs" and "stoi (tokens ! 3) = Inr qe"
    and "stoi (tokens ! 7) = Inr rs" and "stoi (tokens ! 8) = Inr re"
  shows "parseMashmapRow env line rank =
           Inr \<lparr> qId = tokens ! 0, qStartPos = qs, qEndPos = qe,
                 row_strand = (if tokens ! 4 = ''+'' then FWD else REV),
                 refId = tokens ! 5, rStartPos = rs, rEndPos = re,
                 mashmap_estimated_identity =
                   (if is_a_number env (last mm_id_vec) then stof env (last mm_id_vec)
                    else percentage_identity env),
                 rankMapping = rank \<rparr>"
  using assms by (simp add: parseMashmapRow_def Let_def bind_sum_def)

text \<open>
  C8. The claim holds for fewer than nine tokens (\<open>parse_few_tokens\<close>) and for thirteen or
  more with numeric coordinates (\<open>parse_thirteen_tokens\<close>), but a line of nine to twelve
  tokens passes the assertion and then has its thirteenth token read: on the line
  \<open>ex_short_line\<close> of nine tokens the parser does not return a record with the default
  identity, it reads past the end of the token vector.
\<close>

theorem parse_nine_tokens_reads_out_of_bounds:
  "length (tokenize ex_short_line []) = 9
   \<and> parseMashmapRow env ex_short_line rank = Inl (OutOfBoundsRead 12)"
  by (simp add: parseMashmapRow_def ex_short_tokens Let_def)

subsection \<open>Padding of the reference\<close>

lemma to_u64_id: "0 \<le> x \<Longrightarrow> x < 2 ^ 64 \<Longrightarrow> to_u64 x = nat x"
  by (simp add: to_u64_def)

lemma to_s64_to_u64: "0 \<le> x \<Longrightarrow> x < 2 ^ 63 \<Longrightarrow> to_s64 (to_u64 x) = x"
proof -
  assume a: "0 \<le> x" "x < 2 ^ 63"
  then have "x < 2 ^ 64" by simp
  with a have u: "to_u64 x = nat x" by (simp add: to_u64_id)
  from a have "nat x < 2 ^ 63" by (simp add: nat_less_iff)
  then show ?thesis using a unfolding u to_s64_def by simp
qed

lemma head_padding_min:
  assumes "0 \<le> rStartPos r" and "rStartPos r < 2 ^ 63"
  shows "int (head_padding p r) = min (rStartPos r) (int (wflign_max_len_minor p))"
proof -
  from assms have "to_u64 (rStartPos r) = nat (rStartPos r)" by (simp add: to_u64_id)
  then show ?thesis using assms(1) unfolding head_padding_def min_def by (auto simp: nat_le_iff le_nat_iff)
qed

lemma tail_padding_min:
  assumes "rEndPos r \<le> ref_size" and "ref_size - rEndPos r < 2 ^ 63"
  shows "int (tail_padding p ref_size r) = min (ref_size - rEndPos r) (int (wflign_max_len_minor p))"
proof -
  from assms have "to_u64 (ref_size - rEndPos r) = nat (ref_size - rEndPos r)"
    by (simp add: to_u64_id)
  then show ?thesis using assms(1) unfolding tail_padding_def min_def by (auto simp: nat_le_iff le_nat_iff)
qed

text \<open>
  C5. For a mapping record whose coordinates lie inside the reference and the query, on
  handles that fetch a range \<open>[b, e)\<close> as a buffer of length \<open>e - b\<close>: the head padding is
  the minimum of \<open>rStartPos\<close> and \<^verbatim>\<open>wflign_max_len_minor\<close>, the tail padding is the minimum
  of \<open>ref_size - rEndPos\<close> and \<^verbatim>\<open>wflign_max_len_minor\<close>; the reference buffer handed to the
  kernel is the fetch of \<open>[rStartPos - head, rEndPos + tail)\<close>, of length
  \<open>(rEndPos - rStartPos) + head + tail\<close>, with the pointer \<open>head\<close> bytes into it; the query is
  the fetch of \<open>[qStartPos, qEndPos)\<close>, of length \<open>qEndPos - qStartPos\<close>, with no padding.
\<close>

theorem reference_padding:
  assumes "fetch_contract tfaid (refId r)" and "fetch_contract qfaid (qId r)"
    and "0 \<le> rStartPos r" and "rStartPos r \<le> rEndPos r"
    and "rEndPos r \<le> faidx_seq_len tfaid (refId r)" and "faidx_seq_len tfaid (refId r) < 2 ^ 63"
    and "0 \<le> qStartPos r" and "qStartPos r \<le> qEndPos r"
    and "qEndPos r \<le> faidx_seq_len qfaid (qId r)"
  shows "int (head_padding p r) = min (rStartPos r) (int (wflign_max_len_minor p))
       \<and> int (tail_padding p (faidx_seq_len tfaid (refId r)) r)
           = min (faidx_seq_len tfaid (refId r) - rEndPos r) (int (wflign_max_len_minor p))
       \<and> (\<exists>got_ref got_query call.
             faidx_fetch_seq64 tfaid (refId r)
               (rStartPos r - int (head_padding p r))
               (rEndPos r + int (tail_padding p (faidx_seq_len tfaid (refId r)) r)) = Some got_ref
           \<and> faidx_fetch_seq64 qfaid (qId r) (qStartPos r) (qEndPos r) = Some got_query
           \<and> doAlignment_call p tfaid qfaid r = Inr call
           \<and> target_buffer call = makeUpperCaseAndValidDNA got_ref
           \<and> target_offset call = head_padding p r
           \<and> int (length (target_buffer call))
               = (rEndPos r - rStartPos r) + int (head_padding p r)
                 + int (tail_padding p (faidx_seq_len tfaid (refId r)) r)
           \<and> query call = (if row_strand r = FWD then makeUpperCaseAndValidDNA got_query
                            else reverseComplement (makeUpperCaseAndValidDNA got_query))
           \<and> int (length (query call)) = qEndPos r - qStartPos r)"
proof -
  let ?size = "faidx_seq_len tfaid (refId r)"
  let ?h = "head_padding p r"
  let ?t = "tail_padding p ?size r"
  let ?b = "rStartPos r - int ?h"
  let ?e = "rEndPos r + int ?t"
  from assms have s63: "rStartPos r < 2 ^ 63" and d63: "?size - rEndPos r < 2 ^ 63" by simp_all
  have h: "int ?h = min (rStartPos r) (int (wflign_max_len_minor p))"
    using assms(3) s63 by (rule head_padding_min)
  have t: "int ?t = min (?size - rEndPos r) (int (wflign_max_len_minor p))"
    using assms(5) d63 by (rule tail_padding_min)
  from h t assms have range: "0 \<le> ?b" "?b \<le> ?e" "?e \<le> ?size" by simp_all
  with assms(6) have "?b < 2 ^ 63" "0 \<le> ?e" "?e < 2 ^ 63" by simp_all
  with range have conv: "to_s64 (to_u64 ?b) = ?b" "to_s64 (to_u64 ?e) = ?e"
    by (simp_all add: to_s64_to_u64)
  from assms(1) range obtain got_ref
    where gr: "faidx_fetch_seq64 tfaid (refId r) ?b ?e = Some got_ref"
      and lr: "int (length got_ref) = ?e - ?b"
    unfolding fetch_contract_def by blast
  from assms(2,7,8,9) obtain got_query
    where gq: "faidx_fetch_seq64 qfaid (qId r) (qStartPos r) (qEndPos r) = Some got_query"
      and lq: "int (length got_query) = qEndPos r - qStartPos r"
    unfolding fetch_contract_def by blast
  from lq have take: "take (nat (qEndPos r - qStartPos r)) (makeUpperCaseAndValidDNA got_query)
                        = makeUpperCaseAndValidDNA got_query"
    by (simp add: makeUpperCaseAndValidDNA_def)
  from assms(7,9) have le: "qEndPos r - qStartPos r \<le> faidx_seq_len qfaid (qId r)" by simp
  define call :: "'a KernelCall" where "call =
     \<lparr> query_name = qId r @ (if split_mappings p \<and> sam_format p
                               then ''_'' @ to_string (rankMapping r) else []),
       query = (if row_strand r = FWD then makeUpperCaseAndValidDNA got_query
                else reverseComplement (makeUpperCaseAndValidDNA got_query)),
       query_total_length = faidx_seq_len qfaid (qId r),
       query_offset = qStartPos r,
       query_length = qEndPos r - qStartPos r,
       query_is_rev = (row_strand r \<noteq> FWD),
       target_name = refId r,
       target_buffer = makeUpperCaseAndValidDNA got_ref,
       target_offset = ?h,
       target_total_length = ?size,
       target_start = rStartPos r,
       target_length = rEndPos r - rStartPos r,
       estimated_identity = mashmap_estimated_identity r \<rparr>"
  have c: "doAlignment_call p tfaid qfaid r = Inr call"
    unfolding doAlignment_call_def Let_def conv gr gq call_def using le take by simp
  have "int (length (target_buffer call)) = (rEndPos r - rStartPos r) + int ?h + int ?t"
    using lr by (simp add: call_def makeUpperCaseAndValidDNA_def)
  moreover have "int (length (query call)) = qEndPos r - qStartPos r"
    using lq by (simp add: call_def makeUpperCaseAndValidDNA_def reverseComplement_def)
  ultimately show ?thesis using h t gr gq c by (simp add: call_def)
qed

lemma store_of_contract: "fetch_contract (store_of seqs) n"
proof (cases "seqs n")
  case None
  then show ?thesis by (simp add: fetch_contract_def store_of_def)
next
  case (Some s)
  then show ?thesis by (auto simp: fetch_contract_def store_of_def)
qed

lemma ex_parse: "parseMashmapRow ex_parse_env ex_full_line 0 = Inr ex_row"
  by (simp add: parseMashmapRow_def ex_full_tokens Let_def ex_parse_env_def bind_sum_def
      stoi_examples ex_row_def)

lemma ex_call:
  "doAlignment_call ex_align_params ex_targets ex_queries ex_row =
     Inr \<lparr> query_name = ''q0'', query = replicate 100 CHR ''C'',
           query_total_length = 10000, query_offset = 0, query_length = 100,
           query_is_rev = False, target_name = ''r0'',
           target_buffer = replicate 225 CHR ''A'', target_offset = 50,
           target_total_length = 2000, target_start = 50, target_length = 100,
           estimated_identity = 95 \<rparr>"
  by (simp add: doAlignment_call_def Let_def ex_align_params_def ex_targets_def ex_queries_def
      ex_row_def store_of_def head_padding_def tail_padding_def to_u64_def to_s64_def
      makeUpperCaseAndValidDNA_def canonical_base_def)

lemma ex_doAlignment:
  "doAlignment (kernel ex_aligner) (param_of ex_aligner) (target_faidx ex_aligner)
     (query_faidx ex_aligner) ex_row = Inr ex_output"
  by (simp add: doAlignment_def ex_aligner_def ex_call)

theorem reference_padding_witness:
  "fetch_contract ex_targets (refId ex_row) \<and> fetch_contract ex_queries (qId ex_row)
   \<and> 0 \<le> rStartPos ex_row \<and> rStartPos ex_row \<le> rEndPos ex_row
   \<and> rEndPos ex_row \<le> faidx_seq_len ex_targets (refId ex_row)
   \<and> faidx_seq_len ex_targets (refId ex_row) < 2 ^ 63
   \<and> 0 \<le> qStartPos ex_row \<and> qStartPos ex_row \<le> qEndPos ex_row
   \<and> qEndPos ex_row \<le> faidx_seq_len ex_queries (qId ex_row)
   \<and> head_padding ex_align_params ex_row = 50
   \<and> tail_padding ex_align_params 2000 ex_row = 75
   \<and> (\<exists>call. doAlignment_call ex_align_params ex_targets ex_queries ex_row = Inr call
          \<and> int (length (target_buffer call)) = 100 + 50 + 75
          \<and> target_offset call = 50
          \<and> int (length (query call)) = 100)"
proof -
  have c1: "fetch_contract ex_targets (refId ex_row)"
    and c2: "fetch_contract ex_queries (qId ex_row)"
    by (simp_all add: ex_targets_def ex_queries_def store_of_contract)
  have len: "faidx_seq_len ex_targets (refId ex_row) = 2000"
    "faidx_seq_len ex_queries (qId ex_row) = 10000"
    by (simp_all add: ex_targets_def ex_queries_def store_of_def ex_row_def)
  have r: "0 \<le> rStartPos ex_row" "rStartPos ex_row \<le> rEndPos ex_row"
    "rEndPos ex_row \<le> faidx_seq_len ex_targets (refId ex_row)"
    "faidx_seq_len ex_targets (refId ex_row) < 2 ^ 63"
    "0 \<le> qStartPos ex_row" "qStartPos ex_row \<le> qEndPos ex_row"
    "qEndPos ex_row \<le> faidx_seq_len ex_queries (qId ex_row)"
    unfolding len by (simp_all add: ex_row_def)
  have h: "head_padding ex_align_params ex_row = 50"
    and t: "tail_padding ex_align_params 2000 ex_row = 75"
    by (simp_all add: head_padding_def tail_padding_def to_u64_def ex_align_params_def ex_row_def)
  have v: "rEndPos ex_row - rStartPos ex_row = 100" "qEndPos ex_row - qStartPos ex_row = 100"
    by (simp_all add: ex_row_def)
  from reference_padding [OF c1 c2 r, of ex_align_params]
  obtain call where "doAlignment_call ex_align_params ex_targets ex_queries ex_row = Inr call"
    and "target_offset call = head_padding ex_align_params ex_row"
    and "int (length (target_buffer call))
               = (rEndPos ex_row - rStartPos ex_row) + int (head_padding ex_align_params ex_row)
                 + int (tail_padding ex_align_params (faidx_seq_len ex_targets (refId ex_row)) ex_row)"
    and "int (length (query call)) = qEndPos ex_row - qStartPos ex_row"
    by blast
  then have "\<exists>call. doAlignment_call ex_align_params ex_targets ex_queries ex_row = Inr call
          \<and> int (length (target_buffer call)) = 100 + 50 + 75
          \<and> target_offset call = 50
          \<and> int (length (query call)) = 100"
    unfolding len h t v by auto
  with c1 c2 r h t show ?thesis by blast
qed

subsection \<open>An interleaving that loses an output line\<close>

lemma ex_aligner_fields:
  "parse_env ex_aligner = ex_parse_env" "threads (param_of ex_aligner) = 1"
  "queue_capacity ex_aligner = 131072"
  by (simp_all add: ex_aligner_def ex_align_params_def)

lemma ex_full_line_nonempty: "ex_full_line \<noteq> []"
  by (simp add: ex_full_line_def)

lemma ex_output_nonempty: "ex_output \<noteq> []"
  by (simp add: ex_output_def)

lemma ex_step_1:
  "step ex_aligner (Writer)
     \<lparr> mappingListStream = [ex_full_line], seq_queue = [], paf_queue = [], reader_done = False, working = [True], outstrm = [], reader = R_loop, workers = [W_start], writer = Wr_try_pop, crashed = False \<rparr>
   = \<lparr> mappingListStream = [ex_full_line], seq_queue = [], paf_queue = [], reader_done = False, working = [True], outstrm = [], reader = R_loop, workers = [W_start], writer = Wr_still_working, crashed = False \<rparr>"
  by (simp add: step_def reader_step_def worker_step_def writer_step_def ex_aligner_fields
      ex_parse ex_doAlignment still_working_def ex_full_line_nonempty ex_output_nonempty)

lemma ex_step_2:
  "step ex_aligner (Reader)
     \<lparr> mappingListStream = [ex_full_line], seq_queue = [], paf_queue = [], reader_done = False, working = [True], outstrm = [], reader = R_loop, workers = [W_start], writer = Wr_still_working, crashed = False \<rparr>
   = \<lparr> mappingListStream = [], seq_queue = [], paf_queue = [], reader_done = False, working = [True], outstrm = [], reader = R_push (ex_row, ex_full_line), workers = [W_start], writer = Wr_still_working, crashed = False \<rparr>"
  by (simp add: step_def reader_step_def worker_step_def writer_step_def ex_aligner_fields
      ex_parse ex_doAlignment still_working_def ex_full_line_nonempty ex_output_nonempty)

lemma ex_step_3:
  "step ex_aligner (Reader)
     \<lparr> mappingListStream = [], seq_queue = [], paf_queue = [], reader_done = False, working = [True], outstrm = [], reader = R_push (ex_row, ex_full_line), workers = [W_start], writer = Wr_still_working, crashed = False \<rparr>
   = \<lparr> mappingListStream = [], seq_queue = [(ex_row, ex_full_line)], paf_queue = [], reader_done = False, working = [True], outstrm = [], reader = R_loop, workers = [W_start], writer = Wr_still_working, crashed = False \<rparr>"
  by (simp add: step_def reader_step_def worker_step_def writer_step_def ex_aligner_fields
      ex_parse ex_doAlignment still_working_def ex_full_line_nonempty ex_output_nonempty)

lemma ex_step_4:
  "step ex_aligner (Reader)
     \<lparr> mappingListStream = [], seq_queue = [(ex_row, ex_full_line)], paf_queue = [], reader_done = False, working = [True], outstrm = [], reader = R_loop, workers = [W_start], writer = Wr_still_working, crashed = False \<rparr>
   = \<lparr> mappingListStream = [], seq_queue = [(ex_row, ex_full_line)], paf_queue = [], reader_done = False, working = [True], outstrm = [], reader = R_store_done, workers = [W_start], writer = Wr_still_working, crashed = False \<rparr>"
  by (simp add: step_def reader_step_def worker_step_def writer_step_def ex_aligner_fields
      ex_parse ex_doAlignment still_working_def ex_full_line_nonempty ex_output_nonempty)

lemma ex_step_5:
  "step ex_aligner (Reader)
     \<lparr> mappingListStream = [], seq_queue = [(ex_row, ex_full_line)], paf_queue = [], reader_done = False, working = [True], outstrm = [], reader = R_store_done, workers = [W_start], writer = Wr_still_working, crashed = False \<rparr>
   = \<lparr> mappingListStream = [], seq_queue = [(ex_row, ex_full_line)], paf_queue = [], reader_done = True, working = [True], outstrm = [], reader = R_finished, workers = [W_start], writer = Wr_still_working, crashed = False \<rparr>"
  by (simp add: step_def reader_step_def worker_step_def writer_step_def ex_aligner_fields
      ex_parse ex_doAlignment still_working_def ex_full_line_nonempty ex_output_nonempty)

lemma ex_step_6:
  "step ex_aligner (Worker 0)
     \<lparr> mappingListStream = [], seq_queue = [(ex_row, ex_full_line)], paf_queue = [], reader_done = True, working = [True], outstrm = [], reader = R_finished, workers = [W_start], writer = Wr_still_working, crashed = False \<rparr>
   = \<lparr> mappingListStream = [], seq_queue = [(ex_row, ex_full_line)], paf_queue = [], reader_done = True, working = [True], outstrm = [], reader = R_finished, workers = [W_try_pop], writer = Wr_still_working, crashed = False \<rparr>"
  by (simp add: step_def reader_step_def worker_step_def writer_step_def ex_aligner_fields
      ex_parse ex_doAlignment still_working_def ex_full_line_nonempty ex_output_nonempty)

lemma ex_step_7:
  "step ex_aligner (Worker 0)
     \<lparr> mappingListStream = [], seq_queue = [(ex_row, ex_full_line)], paf_queue = [], reader_done = True, working = [True], outstrm = [], reader = R_finished, workers = [W_try_pop], writer = Wr_still_working, crashed = False \<rparr>
   = \<lparr> mappingListStream = [], seq_queue = [], paf_queue = [], reader_done = True, working = [True], outstrm = [], reader = R_finished, workers = [W_align (ex_row, ex_full_line)], writer = Wr_still_working, crashed = False \<rparr>"
  by (simp add: step_def reader_step_def worker_step_def writer_step_def ex_aligner_fields
      ex_parse ex_doAlignment still_working_def ex_full_line_nonempty ex_output_nonempty)

lemma ex_step_8:
  "step ex_aligner (Worker 0)
     \<lparr> mappingListStream = [], seq_queue = [], paf_queue = [], reader_done = True, working = [True], outstrm = [], reader = R_finished, workers = [W_align (ex_row, ex_full_line)], writer = Wr_still_working, crashed = False \<rparr>
   = \<lparr> mappingListStream = [], seq_queue = [], paf_queue = [], reader_done = True, working = [True], outstrm = [], reader = R_finished, workers = [W_push ex_output], writer = Wr_still_working, crashed = False \<rparr>"
  by (simp add: step_def reader_step_def worker_step_def writer_step_def ex_aligner_fields
      ex_parse ex_doAlignment still_working_def ex_full_line_nonempty ex_output_nonempty)

lemma ex_step_9:
  "step ex_aligner (Worker 0)
     \<lparr> mappingListStream = [], seq_queue = [], paf_queue = [], reader_done = True, working = [True], outstrm = [], reader = R_finished, workers = [W_push ex_output], writer = Wr_still_working, crashed = False \<rparr>
   = \<lparr> mappingListStream = [], seq_queue = [], paf_queue = [ex_output], reader_done = True, working = [True], outstrm = [], reader = R_finished, workers = [W_try_pop], writer = Wr_still_working, crashed = False \<rparr>"
  by (simp add: step_def reader_step_def worker_step_def writer_step_def ex_aligner_fields
      ex_parse ex_doAlignment still_working_def ex_full_line_nonempty ex_output_nonempty)

lemma ex_step_10:
  "step ex_aligner (Worker 0)
     \<lparr> mappingListStream = [], seq_queue = [], paf_queue = [ex_output], reader_done = True, working = [True], outstrm = [], reader = R_finished, workers = [W_try_pop], writer = Wr_still_working, crashed = False \<rparr>
   = \<lparr> mappingListStream = [], seq_queue = [], paf_queue = [ex_output], reader_done = True, working = [True], outstrm = [], reader = R_finished, workers = [W_load_reader_done], writer = Wr_still_working, crashed = False \<rparr>"
  by (simp add: step_def reader_step_def worker_step_def writer_step_def ex_aligner_fields
      ex_parse ex_doAlignment still_working_def ex_full_line_nonempty ex_output_nonempty)

lemma ex_step_11:
  "step ex_aligner (Worker 0)
     \<lparr> mappingListStream = [], seq_queue = [], paf_queue = [ex_output], reader_done = True, working = [True], outstrm = [], reader = R_finished, workers = [W_load_reader_done], writer = Wr_still_working, crashed = False \<rparr>
   = \<lparr> mappingListStream = [], seq_queue = [], paf_queue = [ex_output], reader_done = True, working = [True], outstrm = [], reader = R_finished, workers = [W_store_not_working], writer = Wr_still_working, crashed = False \<rparr>"
  by (simp add: step_def reader_step_def worker_step_def writer_step_def ex_aligner_fields
      ex_parse ex_doAlignment still_working_def ex_full_line_nonempty ex_output_nonempty)

lemma ex_step_12:
  "step ex_aligner (Worker 0)
     \<lparr> mappingListStream = [], seq_queue = [], paf_queue = [ex_output], reader_done = True, working = [True], outstrm = [], reader = R_finished, workers = [W_store_not_working], writer = Wr_still_working, crashed = False \<rparr>
   = \<lparr> mappingListStream = [], seq_queue = [], paf_queue = [ex_output], reader_done = True, working = [False], outstrm = [], reader = R_finished, workers = [W_finished], writer = Wr_still_working, crashed = False \<rparr>"
  by (simp add: step_def reader_step_def worker_step_def writer_step_def ex_aligner_fields
      ex_parse ex_doAlignment still_working_def ex_full_line_nonempty ex_output_nonempty)

lemma ex_step_13:
  "step ex_aligner (Writer)
     \<lparr> mappingListStream = [], seq_queue = [], paf_queue = [ex_output], reader_done = True, working = [False], outstrm = [], reader = R_finished, workers = [W_finished], writer = Wr_still_working, crashed = False \<rparr>
   = \<lparr> mappingListStream = [], seq_queue = [], paf_queue = [ex_output], reader_done = True, working = [False], outstrm = [], reader = R_finished, workers = [W_finished], writer = Wr_finished, crashed = False \<rparr>"
  by (simp add: step_def reader_step_def worker_step_def writer_step_def ex_aligner_fields
      ex_parse ex_doAlignment still_working_def ex_full_line_nonempty ex_output_nonempty)

lemma ex_launch:
  "launch ex_aligner [ex_full_line] = \<lparr> mappingListStream = [ex_full_line], seq_queue = [], paf_queue = [], reader_done = False, working = [True], outstrm = [], reader = R_loop, workers = [W_start], writer = Wr_try_pop, crashed = False \<rparr>"
  by (simp add: launch_def ex_aligner_fields)

lemma ex_run:
  "run ex_aligner ex_schedule (launch ex_aligner [ex_full_line]) =
     \<lparr> mappingListStream = [], seq_queue = [], paf_queue = [ex_output], reader_done = True, working = [False], outstrm = [], reader = R_finished, workers = [W_finished], writer = Wr_finished, crashed = False \<rparr>"
  unfolding run_def ex_schedule_def ex_launch
  by (simp only: fold_simps o_apply ex_step_1 ex_step_2 ex_step_3 ex_step_4 ex_step_5 ex_step_6 ex_step_7 ex_step_8 ex_step_9 ex_step_10 ex_step_11 ex_step_12 ex_step_13)

text \<open>
  C10. The mapping line of the example parses and its alignment is not empty, yet under
  \<open>ex_schedule\<close>, with one worker, all threads end and nothing has been written: the writer
  found the queue empty, the worker then pushed its line and cleared its flag, and the writer
  then saw no worker working and left the line in the queue.
\<close>

theorem pipeline_drops_output:
  "parseMashmapRow (parse_env ex_aligner) ex_full_line 0 = Inr ex_row
   \<and> doAlignment (kernel ex_aligner) (param_of ex_aligner) (target_faidx ex_aligner)
        (query_faidx ex_aligner) ex_row = Inr ex_output
   \<and> ex_output \<noteq> []
   \<and> all_joined (run ex_aligner ex_schedule (launch ex_aligner [ex_full_line]))
   \<and> outstrm (run ex_aligner ex_schedule (launch ex_aligner [ex_full_line])) = []"
  by (simp add: ex_run all_joined_def ex_aligner_fields ex_parse ex_doAlignment ex_output_nonempty)

end
